theory Spec2Isabelle
  imports Main
begin

section \<open>Shared client cache (packages/lambda/src/shared/aws-clients.ts)\<close>

subsection \<open>JavaScript values the module works with\<close>

text \<open>
  Strings are lists of code units, here the code units below 256. Errors are values: the
  module throws a \<open>TypeError\<close> for an unknown service, \<open>simulatePermissions\<close> and the
  collaborators throw plain \<open>Error\<close>s, each carrying its message.
\<close>

datatype error = Error string | TypeError string

text \<open>
  \<open>process.env.X\<close> is \<open>undefined\<close> (here \<open>None\<close>) or a string. The source tests such values
  for truthiness: \<open>undefined\<close>, \<open>null\<close> and the empty string are falsy, every other string is
  truthy.
\<close>

definition truthy :: "string option \<Rightarrow> bool" where
  "truthy v = (case v of None \<Rightarrow> False | Some s \<Rightarrow> s \<noteq> [])"

text \<open>
  The credential environment: \<open>process.env\<close> and the answer of \<open>isInsideLambda()\<close>, which is
  imported from \<open>./is-in-lambda\<close> and taken as given.
\<close>

record environment =
  env :: "string \<rightharpoonup> string"
  isInsideLambda :: bool

text \<open>
  What \<open>getCredentials\<close> returns when it does not return \<open>undefined\<close>: the provider built by
  \<open>fromIni({profile})\<close>, or an identity object \<open>{accessKeyId, secretAccessKey}\<close>.
\<close>

datatype credentials = fromIni string | AwsCredentialIdentity string string

definition getCredentials :: "environment \<Rightarrow> credentials option" where
  "getCredentials e =
    (if isInsideLambda e then None
     else if truthy (env e ''REMOTION_AWS_PROFILE'')
       then Some (fromIni (the (env e ''REMOTION_AWS_PROFILE'')))
     else if truthy (env e ''REMOTION_AWS_ACCESS_KEY_ID'')
             \<and> truthy (env e ''REMOTION_AWS_SECRET_ACCESS_KEY'')
       then Some (AwsCredentialIdentity (the (env e ''REMOTION_AWS_ACCESS_KEY_ID''))
                                        (the (env e ''REMOTION_AWS_SECRET_ACCESS_KEY'')))
     else if truthy (env e ''AWS_ACCESS_KEY_ID'') \<and> truthy (env e ''AWS_SECRET_ACCESS_KEY'')
       then Some (AwsCredentialIdentity (the (env e ''AWS_ACCESS_KEY_ID''))
                                        (the (env e ''AWS_SECRET_ACCESS_KEY'')))
     else None)"

subsection \<open>\<open>JSON.stringify\<close> on the values the module serialises\<close>

datatype json = JNull | JString string | JObject "(string \<times> json) list"

definition hex_digit :: "nat \<Rightarrow> char" where
  "hex_digit n = (if n < 10 then char_of (48 + n) else char_of (87 + n))"

text \<open>
  ECMAScript's QuoteJSONString, one code unit at a time: the seven short escapes, a
  \<open>\u00XX\<close> escape (lower-case hexadecimal) for the other control characters, and the code
  unit itself otherwise. \<^term>\<open>CHR 0x5C\<close> is the backslash, \<^term>\<open>CHR 0x22\<close> the double quote.
\<close>

definition quote_unit :: "char \<Rightarrow> string" where
  "quote_unit c =
    (if c = CHR 0x08 then [CHR 0x5C, CHR ''b'']
     else if c = CHR 0x09 then [CHR 0x5C, CHR ''t'']
     else if c = CHR 0x0A then [CHR 0x5C, CHR ''n'']
     else if c = CHR 0x0C then [CHR 0x5C, CHR ''f'']
     else if c = CHR 0x0D then [CHR 0x5C, CHR ''r'']
     else if c = CHR 0x22 then [CHR 0x5C, CHR 0x22]
     else if c = CHR 0x5C then [CHR 0x5C, CHR 0x5C]
     else if (of_char c :: nat) < 32
       then [CHR 0x5C, CHR ''u'', CHR ''0'', CHR ''0'',
             hex_digit (of_char c div 16), hex_digit (of_char c mod 16)]
     else [c])"

definition QuoteJSONString :: "string \<Rightarrow> string" where
  "QuoteJSONString s = CHR 0x22 # concat (map quote_unit s) @ [CHR 0x22]"

fun intercalate :: "'a list \<Rightarrow> 'a list list \<Rightarrow> 'a list" where
  "intercalate sep [] = []"
| "intercalate sep [x] = x"
| "intercalate sep (x # y # ys) = x @ sep @ intercalate sep (y # ys)"

fun stringify :: "json \<Rightarrow> string" where
  "stringify JNull = ''null''"
| "stringify (JString s) = QuoteJSONString s"
| "stringify (JObject kvs) =
     ''{'' @ intercalate '','' (map (\<lambda>(k, v). QuoteJSONString k @ '':'' @ stringify v) kvs) @ ''}''"

subsection \<open>The cache key\<close>

text \<open>
  \<open>CustomCredentials\<close> is the object type \<open>{endpoint, accessKeyId, secretAccessKey}\<close>, the last
  two nullable. The caller creates the object, and \<open>getCredentialsHash\<close> hands it to
  \<open>JSON.stringify\<close> as it is; \<open>JSON.stringify\<close> writes an object's properties in the order in
  which they were inserted. An object of this type is therefore its three values together
  with the order in which the caller wrote the three properties.
\<close>

datatype property_order =
    endpoint_accessKeyId_secretAccessKey
  | endpoint_secretAccessKey_accessKeyId
  | accessKeyId_endpoint_secretAccessKey
  | accessKeyId_secretAccessKey_endpoint
  | secretAccessKey_endpoint_accessKeyId
  | secretAccessKey_accessKeyId_endpoint

record CustomCredentials =
  endpoint :: string
  accessKeyId :: "string option"
  secretAccessKey :: "string option"
  insertion_order :: property_order

fun own_keys :: "property_order \<Rightarrow> string list" where
  "own_keys endpoint_accessKeyId_secretAccessKey = [''endpoint'', ''accessKeyId'', ''secretAccessKey'']"
| "own_keys endpoint_secretAccessKey_accessKeyId = [''endpoint'', ''secretAccessKey'', ''accessKeyId'']"
| "own_keys accessKeyId_endpoint_secretAccessKey = [''accessKeyId'', ''endpoint'', ''secretAccessKey'']"
| "own_keys accessKeyId_secretAccessKey_endpoint = [''accessKeyId'', ''secretAccessKey'', ''endpoint'']"
| "own_keys secretAccessKey_endpoint_accessKeyId = [''secretAccessKey'', ''endpoint'', ''accessKeyId'']"
| "own_keys secretAccessKey_accessKeyId_endpoint = [''secretAccessKey'', ''accessKeyId'', ''endpoint'']"

definition json_of_nullable :: "string option \<Rightarrow> json" where
  "json_of_nullable v = (case v of None \<Rightarrow> JNull | Some s \<Rightarrow> JString s)"

definition property_value :: "CustomCredentials \<Rightarrow> string \<Rightarrow> json" where
  "property_value c k =
    (if k = ''endpoint'' then JString (endpoint c)
     else if k = ''accessKeyId'' then json_of_nullable (accessKeyId c)
     else json_of_nullable (secretAccessKey c))"

definition json_of_customCredentials :: "CustomCredentials option \<Rightarrow> json" where
  "json_of_customCredentials cc =
    (case cc of
       None \<Rightarrow> JNull
     | Some c \<Rightarrow> JObject (map (\<lambda>k. (k, property_value c k)) (own_keys (insertion_order c))))"

text \<open>
  The own enumerable properties that \<open>...(getCredentials() ?? {})\<close> spreads: none for
  \<open>undefined\<close>, none for a provider (a function), the two keys for an identity object.
\<close>

definition spread_credentials :: "credentials option \<Rightarrow> (string \<times> json) list" where
  "spread_credentials c =
    (case c of
       None \<Rightarrow> []
     | Some (fromIni p) \<Rightarrow> []
     | Some (AwsCredentialIdentity a s) \<Rightarrow>
         [(''accessKeyId'', JString a), (''secretAccessKey'', JString s)])"

text \<open>
  The \<open>credentials\<close> property of the object literal in \<open>getCredentialsHash\<close>: two spreads, the
  first guarded by \<open>!process.env.REMOTION_AWS_PROFILE\<close>, the second by its opposite.
\<close>

definition credentials_descriptor :: "environment \<Rightarrow> json" where
  "credentials_descriptor e =
    JObject
      ((if \<not> truthy (env e ''REMOTION_AWS_PROFILE'') then []
        else [(''awsProfile'', JString (the (env e ''REMOTION_AWS_PROFILE'')))])
       @ (if truthy (env e ''REMOTION_AWS_PROFILE'') then []
          else spread_credentials (getCredentials e)))"

text \<open>The object literal handed to \<open>JSON.stringify\<close> in \<open>getCredentialsHash\<close>.\<close>

definition descriptor :: "environment \<Rightarrow> string \<Rightarrow> string \<Rightarrow> CustomCredentials option \<Rightarrow> json" where
  "descriptor e region service customCredentials =
    JObject
      [(''credentials'', credentials_descriptor e),
       (''customCredentials'', json_of_customCredentials customCredentials),
       (''region'', JString region),
       (''service'', JString service)]"

text \<open>
  \<open>createHash('sha256').update(s).digest('base64')\<close> is the parameter \<open>sha256\<close>, a function
  from strings to strings.
\<close>

definition getCredentialsHash ::
  "(string \<Rightarrow> string) \<Rightarrow> environment \<Rightarrow> string \<Rightarrow> string \<Rightarrow> CustomCredentials option \<Rightarrow> string"
where
  "getCredentialsHash sha256 e region service customCredentials =
     sha256 (stringify (descriptor e region service customCredentials))"

subsection \<open>\<open>getServiceClient\<close>\<close>

datatype client_class =
  CloudWatchLogsClient | LambdaClient | S3Client | IAMClient | STSClient | ServiceQuotasClient

text \<open>
  A client object: its identity (\<open>new\<close> takes the next unused one, so reference equality of two
  handles is equality of \<open>ref\<close>), its class and the configuration it was constructed with.
\<close>

record client =
  ref :: nat
  cls :: client_class
  cfg_region :: string
  cfg_credentials :: "credentials option"
  cfg_endpoint :: "string option"

text \<open>
  The module state: the private table \<open>_clients\<close> and the next unused object identity. The
  table is read only at keys that are digests, which are never names of inherited object
  properties, so a lookup finds exactly what was stored.
\<close>

record module_state =
  clients :: "string \<rightharpoonup> client"
  next_ref :: nat

definition initial_state :: module_state where
  "initial_state = \<lparr>clients = Map.empty, next_ref = 0\<rparr>"

definition Client :: "string \<Rightarrow> error + client_class" where
  "Client service =
    (if service = ''cloudwatch'' then Inr CloudWatchLogsClient
     else if service = ''lambda'' then Inr LambdaClient
     else if service = ''s3'' then Inr S3Client
     else if service = ''iam'' then Inr IAMClient
     else if service = ''sts'' then Inr STSClient
     else if service = ''servicequotas'' then Inr ServiceQuotasClient
     else Inl (TypeError (''unknown client '' @ service)))"

definition new_client ::
  "client_class \<Rightarrow> string \<Rightarrow> credentials option \<Rightarrow> string option \<Rightarrow> module_state \<Rightarrow> client"
where
  "new_client k r c ep st =
     \<lparr>ref = next_ref st, cls = k, cfg_region = r, cfg_credentials = c, cfg_endpoint = ep\<rparr>"

text \<open>
  \<open>checkCredentials\<close> is imported from \<open>./check-credentials\<close>; it is a parameter that either
  returns (\<open>None\<close>) or throws (\<open>Some err\<close>). The order of the source is kept: the class is
  selected first (an unknown service throws before anything else happens), then the key is
  computed, and only on a miss are the credentials checked and a client constructed and
  stored.
\<close>

definition getServiceClient ::
  "(string \<Rightarrow> string) \<Rightarrow> (environment \<Rightarrow> error option) \<Rightarrow> environment
     \<Rightarrow> string \<Rightarrow> string \<Rightarrow> CustomCredentials option
     \<Rightarrow> module_state \<Rightarrow> (error + client) \<times> module_state"
where
  "getServiceClient sha256 checkCredentials e region service customCredentials st =
    (case Client service of
       Inl err \<Rightarrow> (Inl err, st)
     | Inr k \<Rightarrow>
        (let key = getCredentialsHash sha256 e region service customCredentials in
         case clients st key of
           Some c \<Rightarrow> (Inr c, st)
         | None \<Rightarrow>
            (case checkCredentials e of
               Some err \<Rightarrow> (Inl err, st)
             | None \<Rightarrow>
                (let c = (case customCredentials of
                            Some cc \<Rightarrow>
                              new_client k ''us-east-1''
                                (if truthy (accessKeyId cc) \<and> truthy (secretAccessKey cc)
                                 then Some (AwsCredentialIdentity (the (accessKeyId cc))
                                                                  (the (secretAccessKey cc)))
                                 else None)
                                (Some (endpoint cc)) st
                          | None \<Rightarrow> new_client k region (getCredentials e) None st)
                 in (Inr c, st\<lparr>clients := (clients st)(key \<mapsto> c),
                                next_ref := Suc (next_ref st)\<rparr>)))))"

definition getStsClient ::
  "(string \<Rightarrow> string) \<Rightarrow> (environment \<Rightarrow> error option) \<Rightarrow> environment
     \<Rightarrow> string \<Rightarrow> module_state \<Rightarrow> (error + client) \<times> module_state"
where
  "getStsClient sha256 checkCredentials e region st =
     getServiceClient sha256 checkCredentials e region ''sts'' None st"

text \<open>
  A process calls \<open>getServiceClient\<close> any number of times, each time under the environment of
  that moment; \<open>_clients\<close> is private to the module, so these calls are all that ever changes
  the state.
\<close>

record invocation =
  at_env :: environment
  at_region :: string
  at_service :: string
  at_customCredentials :: "CustomCredentials option"

fun invocations ::
  "(string \<Rightarrow> string) \<Rightarrow> (environment \<Rightarrow> error option) \<Rightarrow> invocation list
     \<Rightarrow> module_state \<Rightarrow> module_state"
where
  "invocations sha256 checkCredentials [] st = st"
| "invocations sha256 checkCredentials (i # is) st =
     invocations sha256 checkCredentials is
       (snd (getServiceClient sha256 checkCredentials (at_env i) (at_region i) (at_service i)
               (at_customCredentials i) st))"

text \<open>
  The invariant of the table: every stored client was allocated before the next unused
  identity, and no client object is stored under two keys.
\<close>

definition cache_ok :: "module_state \<Rightarrow> bool" where
  "cache_ok st \<longleftrightarrow>
     (\<forall>k c. clients st k = Some c \<longrightarrow> ref c < next_ref st)
     \<and> (\<forall>k k' c c'. clients st k = Some c \<and> clients st k' = Some c' \<and> ref c = ref c' \<longrightarrow> k = k')"

section \<open>Permission simulation (\<open>simulatePermissions\<close>)\<close>

subsection \<open>The two regular expressions\<close>

text \<open>
  The character classes the patterns use, on code units below 256: \<open>[\w\d]\<close> (which is
  \<open>\w\<close>: letters, digits, underscore), \<open>\d\<close>, \<open>[^\/]\<close>, and \<open>.\<close>, which matches everything but
  a line terminator.
\<close>

definition is_digit :: "char \<Rightarrow> bool" where
  "is_digit c \<longleftrightarrow> 48 \<le> (of_char c :: nat) \<and> (of_char c :: nat) \<le> 57"

definition is_word :: "char \<Rightarrow> bool" where
  "is_word c \<longleftrightarrow>
     is_digit c
     \<or> 65 \<le> (of_char c :: nat) \<and> (of_char c :: nat) \<le> 90
     \<or> 97 \<le> (of_char c :: nat) \<and> (of_char c :: nat) \<le> 122
     \<or> c = CHR ''_''"

definition is_line_terminator :: "char \<Rightarrow> bool" where
  "is_line_terminator c \<longleftrightarrow> c = CHR 0x0A \<or> c = CHR 0x0D"

datatype char_class = WordOrDigit | Digit | NotSlash | Dot

fun in_class :: "char_class \<Rightarrow> char \<Rightarrow> bool" where
  "in_class WordOrDigit c = is_word c"
| "in_class Digit c = is_digit c"
| "in_class NotSlash c = (c \<noteq> CHR ''/'')"
| "in_class Dot c = (\<not> is_line_terminator c)"

text \<open>
  Both patterns are sequences of literal characters and capturing groups around one greedy
  repetition of a class: \<open>(C+)\<close> is \<open>CapPlus C\<close>, \<open>(C*)\<close> is \<open>CapStar C\<close>.
\<close>

datatype item = Lit char | CapPlus char_class | CapStar char_class

fun first_some :: "'a option list \<Rightarrow> 'a option" where
  "first_some [] = None"
| "first_some (None # xs) = first_some xs"
| "first_some (Some x # xs) = Some x"

text \<open>
  Matching at a fixed start, by backtracking as ECMAScript specifies it: a greedy repetition
  first takes the longest run of the class and gives characters back one at a time while the
  rest of the pattern fails. The result is the matched text and the captures, in order.
\<close>

fun match_here :: "item list \<Rightarrow> string \<Rightarrow> (string \<times> string list) option" where
  "match_here [] s = Some ([], [])"
| "match_here (Lit c # p) s =
     (case s of
        [] \<Rightarrow> None
      | x # xs \<Rightarrow> if x = c then map_option (\<lambda>(m, gs). (x # m, gs)) (match_here p xs) else None)"
| "match_here (CapPlus C # p) s =
     first_some
       (map (\<lambda>k. map_option (\<lambda>(m, gs). (take k s @ m, take k s # gs)) (match_here p (drop k s)))
            (rev [1 ..< Suc (length (takeWhile (in_class C) s))]))"
| "match_here (CapStar C # p) s =
     first_some
       (map (\<lambda>k. map_option (\<lambda>(m, gs). (take k s @ m, take k s # gs)) (match_here p (drop k s)))
            (rev [0 ..< Suc (length (takeWhile (in_class C) s))]))"

text \<open>
  \<open>String.prototype.match\<close> with a pattern without the \<open>g\<close> flag: the match at the leftmost
  start that has one, as the array \<open>[match, group 1, group 2, ...]\<close>, or \<open>null\<close>.
\<close>

fun regexp_match :: "item list \<Rightarrow> string \<Rightarrow> string list option" where
  "regexp_match p [] = map_option (\<lambda>(m, gs). m # gs) (match_here p [])"
| "regexp_match p (x # xs) =
     (case match_here p (x # xs) of
        Some (m, gs) \<Rightarrow> Some (m # gs)
      | None \<Rightarrow> regexp_match p xs)"

text \<open>\<open>/arn:aws:([\w\d]+)::(\d+):([^\/]+)(.*)/\<close>\<close>

definition arn_re :: "item list" where
  "arn_re = map Lit ''arn:aws:'' @ [CapPlus WordOrDigit] @ map Lit ''::'' @ [CapPlus Digit]
              @ map Lit '':'' @ [CapPlus NotSlash, CapStar Dot]"

text \<open>\<open>/\/([^\/]+)\/(.*)/\<close>\<close>

definition role_re :: "item list" where
  "role_re = [Lit CHR ''/'', CapPlus NotSlash, Lit CHR ''/'', CapStar Dot]"

subsection \<open>From the caller's ARN to the principal ARN\<close>

text \<open>
  Lines 46 to 62 of \<open>simulatePermissions\<close>: the value of the local variable \<open>arn\<close> that is later
  handed to \<open>simulateRule\<close>, or the error thrown on the way. The two rejections of an
  unsupported ARN throw errors with the same message.
\<close>

definition normalizePrincipal :: "string \<Rightarrow> error + string" where
  "normalizePrincipal callerArn =
    (case regexp_match arn_re callerArn of
       None \<Rightarrow> Inl (Error ''Unsupported AWS ARN detected'')
     | Some arnComponents \<Rightarrow>
        if arnComponents ! 1 = ''iam'' \<and> arnComponents ! 3 = ''user'' then Inr callerArn
        else if arnComponents ! 1 = ''sts'' \<and> arnComponents ! 3 = ''assumed-role'' then
          (case regexp_match role_re (arnComponents ! 4) of
             None \<Rightarrow> Inl (Error ''Unsupported AWS Assumed-Role ARN detected'')
           | Some assumedRoleComponents \<Rightarrow>
               Inr (''arn:aws:iam::'' @ arnComponents ! 2 @ '':role/'' @ assumedRoleComponents ! 1))
        else Inl (Error ''Unsupported AWS ARN detected''))"

subsection \<open>The simulation loop\<close>

record SimulationResult =
  name :: string
  decision :: string

text \<open>
  An entry of \<open>requiredPermissions\<close>; the table itself is imported from \<open>./user-permissions\<close>
  and is a parameter of the model.
\<close>

record permission =
  actions :: "string list"
  resource :: string

text \<open>The argument object of \<open>simulateRule\<close>.\<close>

record simulateRule_options =
  rule_actionNames :: "string list"
  rule_arn :: string
  rule_region :: string
  rule_resource :: string
  rule_retries :: nat

text \<open>
  What the loop does to the outside world, in the order in which it does it: a call of the
  collaborator \<open>simulateRule\<close>, or a call of the caller's \<open>onSimulation\<close>.
\<close>

datatype event = SimulateRule simulateRule_options | OnSimulation SimulationResult

definition rule_options :: "string \<Rightarrow> string \<Rightarrow> permission \<Rightarrow> simulateRule_options" where
  "rule_options arn region per =
     \<lparr>rule_actionNames = actions per, rule_arn = arn, rule_region = region,
      rule_resource = resource per, rule_retries = 2\<rparr>"

text \<open>
  The inner loop \<open>for (const res of result)\<close>: push, then call \<open>onSimulation\<close> if the caller
  supplied one (\<open>supplied\<close>). The callback is taken to return normally.
\<close>

fun push_results ::
  "bool \<Rightarrow> SimulationResult list \<Rightarrow> SimulationResult list \<times> event list
     \<Rightarrow> SimulationResult list \<times> event list"
where
  "push_results supplied [] (results, trace) = (results, trace)"
| "push_results supplied (res # rest) (results, trace) =
     push_results supplied rest
       (results @ [res], if supplied then trace @ [OnSimulation res] else trace)"

text \<open>
  The outer loop \<open>for (const per of requiredPermissions)\<close>. \<open>simulateRule\<close> is the collaborator,
  imported from \<open>./simulate-rule\<close>: it returns a list of results or throws, and a throw ends
  the loop and the function. Its answer is taken to depend on its argument only.
\<close>

fun simulate_each ::
  "(simulateRule_options \<Rightarrow> error + SimulationResult list) \<Rightarrow> bool \<Rightarrow> string \<Rightarrow> string
     \<Rightarrow> permission list \<Rightarrow> SimulationResult list \<times> event list
     \<Rightarrow> (error + SimulationResult list) \<times> event list"
where
  "simulate_each simulateRule supplied arn region [] (results, trace) = (Inr results, trace)"
| "simulate_each simulateRule supplied arn region (per # pers) (results, trace) =
     (case simulateRule (rule_options arn region per) of
        Inl err \<Rightarrow> (Inl err, trace @ [SimulateRule (rule_options arn region per)])
      | Inr result \<Rightarrow>
          simulate_each simulateRule supplied arn region pers
            (push_results supplied result
               (results, trace @ [SimulateRule (rule_options arn region per)])))"

subsection \<open>\<open>simulatePermissions\<close>\<close>

text \<open>The response of \<open>GetCallerIdentityCommand\<close>, of which only \<open>Arn\<close> is read.\<close>

record caller_identity =
  Arn :: "string option"

record SimulatePermissionsOutput =
  results :: "SimulationResult list"

text \<open>
  \<open>send\<close> stands for \<open>client.send(new GetCallerIdentityCommand({}))\<close>: it throws, or returns a
  response that may be missing. The function returns its outcome together with the trace of
  collaborator and callback calls; the update of \<open>_clients\<close> made by \<open>getStsClient\<close> is not
  part of the outcome.
\<close>

definition simulatePermissions ::
  "(string \<Rightarrow> string) \<Rightarrow> (environment \<Rightarrow> error option)
     \<Rightarrow> (client \<Rightarrow> error + caller_identity option)
     \<Rightarrow> (simulateRule_options \<Rightarrow> error + SimulationResult list)
     \<Rightarrow> permission list \<Rightarrow> environment \<Rightarrow> module_state
     \<Rightarrow> string \<Rightarrow> bool
     \<Rightarrow> (error + SimulatePermissionsOutput) \<times> event list"
where
  "simulatePermissions sha256 checkCredentials send simulateRule requiredPermissions e st
      region supplied =
    (case fst (getStsClient sha256 checkCredentials e region st) of
       Inl err \<Rightarrow> (Inl err, [])
     | Inr c \<Rightarrow>
        (case send c of
           Inl err \<Rightarrow> (Inl err, [])
         | Inr callerIdentity \<Rightarrow>
            if callerIdentity = None \<or> \<not> truthy (Arn (the callerIdentity))
            then (Inl (Error ''No valid AWS calling identity detected''), [])
            else
              (case normalizePrincipal (the (Arn (the callerIdentity))) of
                 Inl err \<Rightarrow> (Inl err, [])
               | Inr arn \<Rightarrow>
                  (case simulate_each simulateRule supplied arn region requiredPermissions ([], []) of
                     (Inl err, trace) \<Rightarrow> (Inl err, trace)
                   | (Inr rs, trace) \<Rightarrow> (Inr \<lparr>results = rs\<rparr>, trace)))))"

text \<open>Reading a trace: the collaborator calls, and the results the callback saw.\<close>

fun simulated :: "event list \<Rightarrow> simulateRule_options list" where
  "simulated [] = []"
| "simulated (SimulateRule opts # evs) = opts # simulated evs"
| "simulated (OnSimulation res # evs) = simulated evs"

fun observed :: "event list \<Rightarrow> SimulationResult list" where
  "observed [] = []"
| "observed (SimulateRule opts # evs) = observed evs"
| "observed (OnSimulation res # evs) = res # observed evs"

text \<open>What a collaborator call returned, as a list (nothing when it threw).\<close>

definition returned :: "error + SimulationResult list \<Rightarrow> SimulationResult list" where
  "returned r = (case r of Inl err \<Rightarrow> [] | Inr rs \<Rightarrow> rs)"

section \<open>Credential resolution\<close>

text \<open>
  C8 as stated fails where a variable is set to the empty string: the source tests the
  variables for truthiness, and \<open>''\<close> is falsy. With \<open>REMOTION_AWS_PROFILE\<close> set to the empty
  string next to a tool-specific key pair, outside Lambda, the profile variable is set
  (\<open>process.env.REMOTION_AWS_PROFILE\<close> is a string, not \<open>undefined\<close>) and yet the result is the
  key pair, not a named-profile provider.
\<close>

theorem getCredentials_empty_profile_counterexample:
  "env \<lparr>env = [''REMOTION_AWS_PROFILE'' \<mapsto> [], ''REMOTION_AWS_ACCESS_KEY_ID'' \<mapsto> ''RK'',
                ''REMOTION_AWS_SECRET_ACCESS_KEY'' \<mapsto> ''RS''], isInsideLambda = False\<rparr>
      ''REMOTION_AWS_PROFILE'' = Some []
   \<and> getCredentials \<lparr>env = [''REMOTION_AWS_PROFILE'' \<mapsto> [],
                            ''REMOTION_AWS_ACCESS_KEY_ID'' \<mapsto> ''RK'',
                            ''REMOTION_AWS_SECRET_ACCESS_KEY'' \<mapsto> ''RS''],
                     isInsideLambda = False\<rparr> = Some (AwsCredentialIdentity ''RK'' ''RS'')"
  by (simp add: getCredentials_def truthy_def)

text \<open>
  C8, amended. \<open>getCredentials\<close> selects one source by fixed priority. Inside Lambda the result
  is \<open>undefined\<close> whatever the environment variables hold. Otherwise, if
  \<open>REMOTION_AWS_PROFILE\<close> is set to a non-empty value, the result is the \<open>fromIni\<close> provider for
  that profile; otherwise, if both \<open>REMOTION_AWS_ACCESS_KEY_ID\<close> and
  \<open>REMOTION_AWS_SECRET_ACCESS_KEY\<close> are set to non-empty values, that pair; otherwise, if both
  \<open>AWS_ACCESS_KEY_ID\<close> and \<open>AWS_SECRET_ACCESS_KEY\<close> are set to non-empty values, that pair;
  otherwise \<open>undefined\<close>. (\<^const>\<open>truthy\<close> is: defined and not the empty string.)
\<close>

theorem getCredentials_priority:
  "(isInsideLambda e \<longrightarrow> getCredentials e = None)
   \<and> (\<not> isInsideLambda e \<and> env e ''REMOTION_AWS_PROFILE'' = Some p \<and> p \<noteq> []
        \<longrightarrow> getCredentials e = Some (fromIni p))
   \<and> (\<not> isInsideLambda e \<and> \<not> truthy (env e ''REMOTION_AWS_PROFILE'')
        \<and> env e ''REMOTION_AWS_ACCESS_KEY_ID'' = Some a \<and> a \<noteq> []
        \<and> env e ''REMOTION_AWS_SECRET_ACCESS_KEY'' = Some s \<and> s \<noteq> []
        \<longrightarrow> getCredentials e = Some (AwsCredentialIdentity a s))
   \<and> (\<not> isInsideLambda e \<and> \<not> truthy (env e ''REMOTION_AWS_PROFILE'')
        \<and> \<not> (truthy (env e ''REMOTION_AWS_ACCESS_KEY_ID'')
               \<and> truthy (env e ''REMOTION_AWS_SECRET_ACCESS_KEY''))
        \<and> env e ''AWS_ACCESS_KEY_ID'' = Some a' \<and> a' \<noteq> []
        \<and> env e ''AWS_SECRET_ACCESS_KEY'' = Some s' \<and> s' \<noteq> []
        \<longrightarrow> getCredentials e = Some (AwsCredentialIdentity a' s'))
   \<and> (\<not> isInsideLambda e \<and> \<not> truthy (env e ''REMOTION_AWS_PROFILE'')
        \<and> \<not> (truthy (env e ''REMOTION_AWS_ACCESS_KEY_ID'')
               \<and> truthy (env e ''REMOTION_AWS_SECRET_ACCESS_KEY''))
        \<and> \<not> (truthy (env e ''AWS_ACCESS_KEY_ID'') \<and> truthy (env e ''AWS_SECRET_ACCESS_KEY''))
        \<longrightarrow> getCredentials e = None)"
  by (simp add: getCredentials_def truthy_def)

text \<open>
  The five priority levels at concrete environments: every variable set inside Lambda; a
  profile next to both key pairs; both key pairs; a tool-specific key without its secret next
  to the generic pair; a lone tool-specific key.
\<close>

theorem getCredentials_priority_witness:
  "getCredentials \<lparr>env = [''REMOTION_AWS_PROFILE'' \<mapsto> ''dev'', ''AWS_ACCESS_KEY_ID'' \<mapsto> ''K'',
                          ''AWS_SECRET_ACCESS_KEY'' \<mapsto> ''S''], isInsideLambda = True\<rparr> = None
   \<and> getCredentials \<lparr>env = [''REMOTION_AWS_PROFILE'' \<mapsto> ''dev'',
                            ''REMOTION_AWS_ACCESS_KEY_ID'' \<mapsto> ''RK'',
                            ''REMOTION_AWS_SECRET_ACCESS_KEY'' \<mapsto> ''RS''],
                     isInsideLambda = False\<rparr> = Some (fromIni ''dev'')
   \<and> getCredentials \<lparr>env = [''REMOTION_AWS_ACCESS_KEY_ID'' \<mapsto> ''RK'',
                            ''REMOTION_AWS_SECRET_ACCESS_KEY'' \<mapsto> ''RS'',
                            ''AWS_ACCESS_KEY_ID'' \<mapsto> ''K'', ''AWS_SECRET_ACCESS_KEY'' \<mapsto> ''S''],
                     isInsideLambda = False\<rparr> = Some (AwsCredentialIdentity ''RK'' ''RS'')
   \<and> getCredentials \<lparr>env = [''REMOTION_AWS_ACCESS_KEY_ID'' \<mapsto> ''RK'',
                            ''AWS_ACCESS_KEY_ID'' \<mapsto> ''K'', ''AWS_SECRET_ACCESS_KEY'' \<mapsto> ''S''],
                     isInsideLambda = False\<rparr> = Some (AwsCredentialIdentity ''K'' ''S'')
   \<and> getCredentials \<lparr>env = [''REMOTION_AWS_ACCESS_KEY_ID'' \<mapsto> ''RK''],
                     isInsideLambda = False\<rparr> = None"
  using
    getCredentials_priority [of "\<lparr>env = [''REMOTION_AWS_PROFILE'' \<mapsto> ''dev'', ''AWS_ACCESS_KEY_ID'' \<mapsto> ''K'',
                          ''AWS_SECRET_ACCESS_KEY'' \<mapsto> ''S''], isInsideLambda = True\<rparr>"]
    getCredentials_priority [of "\<lparr>env = [''REMOTION_AWS_PROFILE'' \<mapsto> ''dev'',
                            ''REMOTION_AWS_ACCESS_KEY_ID'' \<mapsto> ''RK'',
                            ''REMOTION_AWS_SECRET_ACCESS_KEY'' \<mapsto> ''RS''],
                     isInsideLambda = False\<rparr>" "''dev''"]
    getCredentials_priority [of "\<lparr>env = [''REMOTION_AWS_ACCESS_KEY_ID'' \<mapsto> ''RK'',
                            ''REMOTION_AWS_SECRET_ACCESS_KEY'' \<mapsto> ''RS'',
                            ''AWS_ACCESS_KEY_ID'' \<mapsto> ''K'', ''AWS_SECRET_ACCESS_KEY'' \<mapsto> ''S''],
                     isInsideLambda = False\<rparr>" _ "''RK''" "''RS''"]
    getCredentials_priority [of "\<lparr>env = [''REMOTION_AWS_ACCESS_KEY_ID'' \<mapsto> ''RK'',
                            ''AWS_ACCESS_KEY_ID'' \<mapsto> ''K'', ''AWS_SECRET_ACCESS_KEY'' \<mapsto> ''S''],
                     isInsideLambda = False\<rparr>" _ _ _ "''K''" "''S''"]
    getCredentials_priority [of "\<lparr>env = [''REMOTION_AWS_ACCESS_KEY_ID'' \<mapsto> ''RK''],
                     isInsideLambda = False\<rparr>"]
  by (simp add: truthy_def)

section \<open>Properties of the cache key\<close>

subsection \<open>\<open>JSON.stringify\<close> is injective on the descriptor\<close>

lemma hex_digit_inj: "a < 16 \<Longrightarrow> b < 16 \<Longrightarrow> hex_digit a = hex_digit b \<Longrightarrow> a = b"
  by (auto simp: hex_digit_def char_of_eq_iff take_bit_nat_eq_self split: if_splits) 

lemma quote_unit_cases:
  "quote_unit c = [c] \<and> c \<noteq> CHR 0x22 \<and> c \<noteq> CHR 0x5C
   \<or> (\<exists>x. quote_unit c = [CHR 0x5C, x] \<and> x \<noteq> CHR ''u'')
   \<or> (of_char c :: nat) < 32 \<and> quote_unit c = [CHR 0x5C, CHR ''u'', CHR ''0'', CHR ''0'',
             hex_digit (of_char c div 16), hex_digit (of_char c mod 16)]"
  by (simp add: quote_unit_def)

lemma quote_unit_short_inj:
  "quote_unit a = [CHR 0x5C, x] \<Longrightarrow> quote_unit b = [CHR 0x5C, x] \<Longrightarrow> a = b"
  by (auto simp: quote_unit_def split: if_splits)

lemma control_inj:
  assumes "(of_char a :: nat) < 32" "(of_char b :: nat) < 32"
    and "hex_digit (of_char a div 16) = hex_digit (of_char b div 16)"
    and "hex_digit (of_char a mod 16) = hex_digit (of_char b mod 16)"
  shows "a = b"
proof -
  have "(of_char a :: nat) div 16 = of_char b div 16"
    using assms(1,2,3) by (intro hex_digit_inj) auto
  moreover have "(of_char a :: nat) mod 16 = of_char b mod 16"
    using assms(4) by (intro hex_digit_inj) auto
  ultimately have "(of_char a :: nat) = of_char b"
    by (metis div_mult_mod_eq)
  then show ?thesis by simp
qed

lemma quote_unit_prefix_free:
  assumes "quote_unit a @ r = quote_unit b @ r'"
  shows "a = b \<and> r = r'"
  using quote_unit_cases [of a] quote_unit_cases [of b] assms
  by (auto dest: quote_unit_short_inj control_inj)

lemma quote_unit_not_quote: "quote_unit a @ r \<noteq> CHR 0x22 # r'"
  using quote_unit_cases [of a] by auto

lemma quoted_body_inj:
  "concat (map quote_unit s) @ CHR 0x22 # r = concat (map quote_unit s') @ CHR 0x22 # r'
     \<Longrightarrow> s = s' \<and> r = r'"
proof (induction s arbitrary: s')
  case Nil
  show ?case
  proof (cases s')
    case Nil
    with Nil.prems show ?thesis by simp
  next
    case (Cons b t)
    with Nil.prems show ?thesis
      using quote_unit_not_quote [of b "concat (map quote_unit t) @ CHR 0x22 # r'" r] by simp
  qed
next
  case (Cons a s)
  show ?case
  proof (cases s')
    case Nil
    with Cons.prems show ?thesis
      using quote_unit_not_quote [of a "concat (map quote_unit s) @ CHR 0x22 # r" r'] by simp
  next
    case (Cons b t)
    with Cons.prems have
      "quote_unit a @ (concat (map quote_unit s) @ CHR 0x22 # r)
        = quote_unit b @ (concat (map quote_unit t) @ CHR 0x22 # r')" by simp
    then have "a = b" and "concat (map quote_unit s) @ CHR 0x22 # r = concat (map quote_unit t) @ CHR 0x22 # r'"
      using quote_unit_prefix_free by blast+
    with Cons.IH [of t] Cons show ?thesis by simp
  qed
qed

lemma QuoteJSONString_prefix_free:
  "QuoteJSONString s @ r = QuoteJSONString s' @ r' \<Longrightarrow> s = s' \<and> r = r'"
  using quoted_body_inj [of s r s' r'] by (simp add: QuoteJSONString_def)

lemma QuoteJSONString_inj: "QuoteJSONString s = QuoteJSONString s' \<longleftrightarrow> s = s'"
  using QuoteJSONString_prefix_free [of s "[]" s' "[]"] by auto

lemma QuoteJSONString_cancel [simp]:
  "QuoteJSONString s @ r = QuoteJSONString s' @ r' \<longleftrightarrow> s = s' \<and> r = r'"
  using QuoteJSONString_prefix_free by blast

lemma QuoteJSONString_not_null [simp]:
  "QuoteJSONString s @ r \<noteq> CHR ''n'' # r'" "CHR ''n'' # r' \<noteq> QuoteJSONString s @ r"
  by (auto simp: QuoteJSONString_def)

lemma QuoteJSONString_keys:
  "QuoteJSONString ''credentials'' = CHR 0x22 # ''credentials'' @ [CHR 0x22]"
  "QuoteJSONString ''awsProfile'' = CHR 0x22 # ''awsProfile'' @ [CHR 0x22]"
  "QuoteJSONString ''accessKeyId'' = CHR 0x22 # ''accessKeyId'' @ [CHR 0x22]"
  "QuoteJSONString ''secretAccessKey'' = CHR 0x22 # ''secretAccessKey'' @ [CHR 0x22]"
  "QuoteJSONString ''customCredentials'' = CHR 0x22 # ''customCredentials'' @ [CHR 0x22]"
  "QuoteJSONString ''endpoint'' = CHR 0x22 # ''endpoint'' @ [CHR 0x22]"
  "QuoteJSONString ''region'' = CHR 0x22 # ''region'' @ [CHR 0x22]"
  "QuoteJSONString ''service'' = CHR 0x22 # ''service'' @ [CHR 0x22]"
  by (simp_all add: QuoteJSONString_def quote_unit_def)

lemma credentials_descriptor_shape:
  "credentials_descriptor e = JObject []
   \<or> (\<exists>p. credentials_descriptor e = JObject [(''awsProfile'', JString p)])
   \<or> (\<exists>a s. credentials_descriptor e
               = JObject [(''accessKeyId'', JString a), (''secretAccessKey'', JString s)])"
  by (auto simp: credentials_descriptor_def spread_credentials_def split: option.splits credentials.splits)

lemma credentials_descriptor_prefix_free:
  assumes "stringify (credentials_descriptor e) @ r = stringify (credentials_descriptor e') @ r'"
  shows "credentials_descriptor e = credentials_descriptor e' \<and> r = r'"
  using credentials_descriptor_shape [of e] credentials_descriptor_shape [of e'] assms
  by (elim disjE exE) (simp_all add: QuoteJSONString_keys)

lemma json_of_nullable_prefix_free:
  "stringify (json_of_nullable a) @ r = stringify (json_of_nullable a') @ r' \<Longrightarrow> a = a' \<and> r = r'"
  by (auto simp: json_of_nullable_def split: option.splits)

lemma json_of_nullable_cancel [simp]:
  "stringify (json_of_nullable a) @ r = stringify (json_of_nullable a') @ r' \<longleftrightarrow> a = a' \<and> r = r'"
  using json_of_nullable_prefix_free by blast

lemma QuoteJSONString_nullable_cancel [simp]:
  "QuoteJSONString s @ r = stringify (json_of_nullable a) @ r' \<longleftrightarrow> a = Some s \<and> r = r'"
  "stringify (json_of_nullable a) @ r' = QuoteJSONString s @ r \<longleftrightarrow> a = Some s \<and> r = r'"
  using json_of_nullable_cancel [of "Some s" r a r'] json_of_nullable_cancel [of a r' "Some s" r]
  by (auto simp: json_of_nullable_def)

lemma customCredentials_members_inj:
  assumes "stringify (json_of_customCredentials (Some x)) @ r
             = stringify (json_of_customCredentials (Some x')) @ r'"
  shows "insertion_order x = insertion_order x' \<and> endpoint x = endpoint x'
         \<and> accessKeyId x = accessKeyId x' \<and> secretAccessKey x = secretAccessKey x' \<and> r = r'"
  using assms
  by (cases "insertion_order x"; cases "insertion_order x'")
     (simp_all add: json_of_customCredentials_def property_value_def QuoteJSONString_keys)

lemma customCredentials_prefix_free:
  assumes "stringify (json_of_customCredentials c) @ r = stringify (json_of_customCredentials c') @ r'"
  shows "c = c' \<and> r = r'"
proof (cases c; cases c')
  fix x x' assume c: "c = Some x" "c' = Some x'"
  with assms customCredentials_members_inj [of x r x' r'] show ?thesis
    by simp
next
  fix x assume "c = None" "c' = Some x"
  with assms show ?thesis
    by (cases "insertion_order x") (simp_all add: json_of_customCredentials_def QuoteJSONString_keys)
next
  fix x assume "c = Some x" "c' = None"
  with assms show ?thesis
    by (cases "insertion_order x") (simp_all add: json_of_customCredentials_def QuoteJSONString_keys)
qed (use assms in \<open>simp_all add: json_of_customCredentials_def\<close>)

lemma stringify_descriptor_inj:
  "stringify (descriptor e r s c) = stringify (descriptor e' r' s' c')
     \<longleftrightarrow> credentials_descriptor e = credentials_descriptor e' \<and> c = c' \<and> r = r' \<and> s = s'"
proof
  assume eq: "stringify (descriptor e r s c) = stringify (descriptor e' r' s' c')"
  then have "stringify (credentials_descriptor e) @ ('','' @ QuoteJSONString ''customCredentials'' @ '':''
       @ stringify (json_of_customCredentials c) @ '','' @ QuoteJSONString ''region'' @ '':''
       @ QuoteJSONString r @ '','' @ QuoteJSONString ''service'' @ '':'' @ QuoteJSONString s @ ''}'')
     = stringify (credentials_descriptor e') @ ('','' @ QuoteJSONString ''customCredentials'' @ '':''
       @ stringify (json_of_customCredentials c') @ '','' @ QuoteJSONString ''region'' @ '':''
       @ QuoteJSONString r' @ '','' @ QuoteJSONString ''service'' @ '':'' @ QuoteJSONString s' @ ''}'')"
    by (simp add: descriptor_def)
  from credentials_descriptor_prefix_free [OF this]
  have cd: "credentials_descriptor e = credentials_descriptor e'"
    and "stringify (json_of_customCredentials c) @ ('','' @ QuoteJSONString ''region'' @ '':''
       @ QuoteJSONString r @ '','' @ QuoteJSONString ''service'' @ '':'' @ QuoteJSONString s @ ''}'')
     = stringify (json_of_customCredentials c') @ ('','' @ QuoteJSONString ''region'' @ '':''
       @ QuoteJSONString r' @ '','' @ QuoteJSONString ''service'' @ '':'' @ QuoteJSONString s' @ ''}'')"
    by simp_all
  from customCredentials_prefix_free [OF this(2)]
  have "c = c'" and "QuoteJSONString r @ ('','' @ QuoteJSONString ''service'' @ '':'' @ QuoteJSONString s @ ''}'')
     = QuoteJSONString r' @ ('','' @ QuoteJSONString ''service'' @ '':'' @ QuoteJSONString s' @ ''}'')"
    by simp_all
  with cd show "credentials_descriptor e = credentials_descriptor e' \<and> c = c' \<and> r = r' \<and> s = s'"
    by (simp add: QuoteJSONString_inj)
next
  assume "credentials_descriptor e = credentials_descriptor e' \<and> c = c' \<and> r = r' \<and> s = s'"
  then show "stringify (descriptor e r s c) = stringify (descriptor e' r' s' c')"
    by (simp add: descriptor_def)
qed

subsection \<open>The table only grows\<close>

lemma cache_ok_initial: "cache_ok initial_state"
  by (simp add: cache_ok_def initial_state_def)

lemma getServiceClient_cases:
  assumes "getServiceClient H chk e r s cc st = (res, st')"
  shows "(\<exists>err. res = Inl err \<and> st' = st)
       \<or> (\<exists>c. res = Inr c \<and> st' = st \<and> clients st (getCredentialsHash H e r s cc) = Some c)
       \<or> (\<exists>c. res = Inr c \<and> clients st (getCredentialsHash H e r s cc) = None
              \<and> ref c = next_ref st
              \<and> st' = st\<lparr>clients := (clients st)(getCredentialsHash H e r s cc \<mapsto> c),
                          next_ref := Suc (next_ref st)\<rparr>)"
  using assms
  by (auto simp: getServiceClient_def Let_def new_client_def
           split: sum.splits option.splits)

lemma getServiceClient_stored:
  assumes "getServiceClient H chk e r s cc st = (Inr c, st')"
  shows "clients st' (getCredentialsHash H e r s cc) = Some c"
  using getServiceClient_cases [OF assms] by auto

lemma getServiceClient_keeps:
  assumes "clients st k = Some c"
  shows "clients (snd (getServiceClient H chk e r s cc st)) k = Some c"
proof -
  obtain res st' where g: "getServiceClient H chk e r s cc st = (res, st')"
    by (cases "getServiceClient H chk e r s cc st")
  from getServiceClient_cases [OF g] assms show ?thesis
    unfolding g by auto
qed

lemma cache_okI:
  assumes "\<And>k d. clients st k = Some d \<Longrightarrow> ref d < next_ref st"
    and "\<And>k k' d d'. clients st k = Some d \<Longrightarrow> clients st k' = Some d' \<Longrightarrow> ref d = ref d' \<Longrightarrow> k = k'"
  shows "cache_ok st"
  unfolding cache_ok_def using assms by blast

lemma cache_ok_unique:
  assumes "cache_ok st" and "clients st k = Some d" and "clients st k' = Some d'"
    and "ref d = ref d'"
  shows "k = k'"
proof -
  from assms(1) have "\<forall>k k' c c'. clients st k = Some c \<and> clients st k' = Some c' \<and> ref c = ref c' \<longrightarrow> k = k'"
    by (simp add: cache_ok_def)
  with assms(2-4) show ?thesis by blast
qed

lemma cache_ok_insert:
  assumes "cache_ok st" and "clients st key = None" and "ref c = next_ref st"
  shows "cache_ok (st\<lparr>clients := (clients st)(key \<mapsto> c), next_ref := Suc (next_ref st)\<rparr>)"
proof -
  from assms(1) have below: "\<And>k d. clients st k = Some d \<Longrightarrow> ref d < next_ref st"
    and uniq: "\<And>k k' d d'. clients st k = Some d \<Longrightarrow> clients st k' = Some d' \<Longrightarrow> ref d = ref d' \<Longrightarrow> k = k'"
    unfolding cache_ok_def by blast+
  have lt: "ref d < Suc (next_ref st)" if "((clients st)(key \<mapsto> c)) k = Some d" for k d
  proof (cases "k = key")
    case True
    with that assms(3) show ?thesis by simp
  next
    case False
    with that have "clients st k = Some d" by simp
    from below [OF this] show ?thesis by simp
  qed
  have un: "k = k'"
    if "((clients st)(key \<mapsto> c)) k = Some d" "((clients st)(key \<mapsto> c)) k' = Some d'" "ref d = ref d'"
    for k k' d d'
  proof (cases "k = key"; cases "k' = key")
    assume "k = key" "k' = key"
    then show ?thesis by simp
  next
    assume k: "k = key" "k' \<noteq> key"
    with that have "d = c" "clients st k' = Some d'" by simp_all
    with below [of k' d'] that(3) assms(3) show ?thesis by simp
  next
    assume k: "k \<noteq> key" "k' = key"
    with that have "d' = c" "clients st k = Some d" by simp_all
    with below [of k d] that(3) assms(3) show ?thesis by simp
  next
    assume k: "k \<noteq> key" "k' \<noteq> key"
    with that have "clients st k = Some d" "clients st k' = Some d'" by simp_all
    from uniq [OF this that(3)] show ?thesis .
  qed
  show ?thesis
  proof (rule cache_okI)
    fix k d
    assume "clients (st\<lparr>clients := (clients st)(key \<mapsto> c), next_ref := Suc (next_ref st)\<rparr>) k = Some d"
    then have "((clients st)(key \<mapsto> c)) k = Some d" by simp
    from lt [OF this]
    show "ref d < next_ref (st\<lparr>clients := (clients st)(key \<mapsto> c), next_ref := Suc (next_ref st)\<rparr>)"
      by simp
  next
    fix k k' d d'
    assume "clients (st\<lparr>clients := (clients st)(key \<mapsto> c), next_ref := Suc (next_ref st)\<rparr>) k = Some d"
      and "clients (st\<lparr>clients := (clients st)(key \<mapsto> c), next_ref := Suc (next_ref st)\<rparr>) k' = Some d'"
      and r: "ref d = ref d'"
    then have "((clients st)(key \<mapsto> c)) k = Some d" "((clients st)(key \<mapsto> c)) k' = Some d'"
      by simp_all
    from un [OF this r] show "k = k'" .
  qed
qed

lemma getServiceClient_cache_ok:
  assumes "cache_ok st"
  shows "cache_ok (snd (getServiceClient H chk e r s cc st))"
proof -
  obtain res st' where g: "getServiceClient H chk e r s cc st = (res, st')"
    by (cases "getServiceClient H chk e r s cc st")
  from getServiceClient_cases [OF g] show ?thesis
    unfolding g using assms by (auto intro: cache_ok_insert)
qed

lemma invocations_keeps:
  "clients st k = Some c \<Longrightarrow> clients (invocations H chk is st) k = Some c"
  by (induction "is" arbitrary: st) (simp_all add: getServiceClient_keeps)

lemma invocations_cache_ok:
  "cache_ok st \<Longrightarrow> cache_ok (invocations H chk is st)"
  by (induction "is" arbitrary: st) (simp_all add: getServiceClient_cache_ok)

lemma getServiceClient_hit:
  assumes "clients st (getCredentialsHash H e r s cc) = Some c"
    and "Client s = Inr k"
  shows "getServiceClient H chk e r s cc st = (Inr c, st)"
  using assms by (simp add: getServiceClient_def)

lemma getServiceClient_Inr_Client:
  assumes "getServiceClient H chk e r s cc st = (Inr c, st')"
  shows "\<exists>k. Client s = Inr k"
  using assms by (auto simp: getServiceClient_def split: sum.splits)

lemma getCredentialsHash_differs:
  assumes "inj_on H {stringify (descriptor e r s cc), stringify (descriptor e' r' s' cc')}"
    and "r \<noteq> r' \<or> s \<noteq> s' \<or> cc \<noteq> cc'"
  shows "getCredentialsHash H e r s cc \<noteq> getCredentialsHash H e' r' s' cc'"
proof
  assume "getCredentialsHash H e r s cc = getCredentialsHash H e' r' s' cc'"
  then have eq: "H (stringify (descriptor e r s cc)) = H (stringify (descriptor e' r' s' cc'))"
    by (simp only: getCredentialsHash_def)
  have "stringify (descriptor e r s cc) = stringify (descriptor e' r' s' cc')"
    by (rule inj_onD [OF assms(1) eq insertI1 insertI2 [OF insertI1]])
  then have "r = r' \<and> s = s' \<and> cc = cc'"
    by (simp only: stringify_descriptor_inj)
  with assms(2) show False by simp
qed

lemma getServiceClient_other_key:
  assumes "st = invocations H chk before initial_state"
    and "getServiceClient H chk e r s cc st = (Inr h, st1)"
    and "st2 = invocations H chk between st1"
    and "getServiceClient H chk e' r' s' cc' st2 = (Inr h', st3)"
    and "getCredentialsHash H e' r' s' cc' \<noteq> getCredentialsHash H e r s cc"
  shows "ref h' \<noteq> ref h"
proof -
  let ?key = "getCredentialsHash H e r s cc"
  let ?key' = "getCredentialsHash H e' r' s' cc'"
  have "clients st1 ?key = Some h"
    using assms(2) by (rule getServiceClient_stored)
  then have kept: "clients st2 ?key = Some h"
    unfolding assms(3) by (rule invocations_keeps)
  have "cache_ok st"
    unfolding assms(1) by (intro invocations_cache_ok cache_ok_initial)
  then have "cache_ok st1"
    using getServiceClient_cache_ok [of st H chk e r s cc] assms(2) by simp
  then have "cache_ok st2"
    unfolding assms(3) by (rule invocations_cache_ok)
  then have ok3: "cache_ok st3"
    using getServiceClient_cache_ok [of st2 H chk e' r' s' cc'] assms(4) by simp
  have "clients st3 ?key' = Some h'"
    using assms(4) by (rule getServiceClient_stored)
  moreover have "clients st3 ?key = Some h"
    using getServiceClient_keeps [OF kept, of H chk e' r' s' cc'] assms(4) by simp
  ultimately show ?thesis
    using cache_ok_unique [OF ok3, of ?key' h' ?key h] assms(5) by auto
qed

lemmas eval_defs =
  getServiceClient_def Client_def getCredentialsHash_def descriptor_def credentials_descriptor_def
  json_of_customCredentials_def property_value_def json_of_nullable_def spread_credentials_def
  getCredentials_def truthy_def QuoteJSONString_def quote_unit_def new_client_def
  initial_state_def Let_def

text \<open>
  C1 as stated fails for custom credentials that are equal value by value but were written
  with their properties in another order: \<open>JSON.stringify\<close> follows the insertion order, so
  \<open>{endpoint, accessKeyId, secretAccessKey}\<close> and \<open>{secretAccessKey, accessKeyId, endpoint}\<close>
  with the same three values are serialised differently, get different cache keys, and the
  second call constructs a second client. (The digest is stood for by the identity, as a
  collision-free hash.)
\<close>

theorem getServiceClient_property_order_counterexample:
  "stringify (descriptor \<lparr>env = Map.empty, isInsideLambda = True\<rparr> ''eu-central-1'' ''s3''
      (Some \<lparr>endpoint = ''http://localhost:9000'', accessKeyId = None, secretAccessKey = None,
              insertion_order = endpoint_accessKeyId_secretAccessKey\<rparr>))
     \<noteq> stringify (descriptor \<lparr>env = Map.empty, isInsideLambda = True\<rparr> ''eu-central-1'' ''s3''
      (Some \<lparr>endpoint = ''http://localhost:9000'', accessKeyId = None, secretAccessKey = None,
              insertion_order = secretAccessKey_accessKeyId_endpoint\<rparr>))
   \<and> fst (getServiceClient id Map.empty \<lparr>env = Map.empty, isInsideLambda = True\<rparr>
            ''eu-central-1'' ''s3''
            (Some \<lparr>endpoint = ''http://localhost:9000'', accessKeyId = None,
                    secretAccessKey = None,
                    insertion_order = endpoint_accessKeyId_secretAccessKey\<rparr>)
            initial_state)
       = Inr \<lparr>ref = 0, cls = S3Client, cfg_region = ''us-east-1'', cfg_credentials = None,
              cfg_endpoint = Some ''http://localhost:9000''\<rparr>
   \<and> fst (getServiceClient id Map.empty \<lparr>env = Map.empty, isInsideLambda = True\<rparr>
            ''eu-central-1'' ''s3''
            (Some \<lparr>endpoint = ''http://localhost:9000'', accessKeyId = None,
                    secretAccessKey = None,
                    insertion_order = secretAccessKey_accessKeyId_endpoint\<rparr>)
            (snd (getServiceClient id Map.empty \<lparr>env = Map.empty, isInsideLambda = True\<rparr>
                    ''eu-central-1'' ''s3''
                    (Some \<lparr>endpoint = ''http://localhost:9000'', accessKeyId = None,
                            secretAccessKey = None,
                            insertion_order = endpoint_accessKeyId_secretAccessKey\<rparr>)
                    initial_state)))
       = Inr \<lparr>ref = 1, cls = S3Client, cfg_region = ''us-east-1'', cfg_credentials = None,
              cfg_endpoint = Some ''http://localhost:9000''\<rparr>"
  by (simp add: eval_defs)

text \<open>
  C1, amended. \<open>getServiceClient\<close> is idempotent on the cache. In a process that has made any
  calls before, let a call with \<open>(region, service, customCredentials)\<close> under environment \<open>e\<close>
  return the handle \<open>h\<close>. After any further calls, a call under the same environment with the
  same region, the same service and the same custom credentials (null, or the same values
  written in the same property order) returns the very same object \<open>h\<close> and leaves the state
  alone. A call whose region differs returns, if it returns a handle, an object with another
  identity, and so does a call whose custom credentials have the same values in another
  property order; these two hold unless the hash collides on the two serialised descriptors.
\<close>

theorem getServiceClient_cache_idempotent:
  assumes "st = invocations sha256 chk before initial_state"
    and "getServiceClient sha256 chk e region service cc st = (Inr h, st1)"
    and "st2 = invocations sha256 chk between st1"
  shows "getServiceClient sha256 chk e region service cc st2 = (Inr h, st2)
       \<and> (\<forall>region' service' cc' h' st3.
             region' \<noteq> region
             \<and> getServiceClient sha256 chk e region' service' cc' st2 = (Inr h', st3)
             \<and> inj_on sha256 {stringify (descriptor e region service cc),
                               stringify (descriptor e region' service' cc')}
             \<longrightarrow> ref h' \<noteq> ref h)
       \<and> (\<forall>c ord h' st3.
             cc = Some c \<and> ord \<noteq> insertion_order c
             \<and> getServiceClient sha256 chk e region service
                   (Some (c\<lparr>insertion_order := ord\<rparr>)) st2 = (Inr h', st3)
             \<and> inj_on sha256 {stringify (descriptor e region service cc),
                               stringify (descriptor e region service
                                            (Some (c\<lparr>insertion_order := ord\<rparr>)))}
             \<longrightarrow> ref h' \<noteq> ref h)"
proof (intro conjI allI impI)
  let ?key = "getCredentialsHash sha256 e region service cc"
  have stored: "clients st1 ?key = Some h"
    using assms(2) by (rule getServiceClient_stored)
  then have kept: "clients st2 ?key = Some h"
    unfolding assms(3) by (rule invocations_keeps)
  from getServiceClient_Inr_Client [OF assms(2)] obtain k where "Client service = Inr k" ..
  with kept show "getServiceClient sha256 chk e region service cc st2 = (Inr h, st2)"
    by (rule getServiceClient_hit)
next
  fix region' service' cc' h' st3
  assume a: "region' \<noteq> region
             \<and> getServiceClient sha256 chk e region' service' cc' st2 = (Inr h', st3)
             \<and> inj_on sha256 {stringify (descriptor e region service cc),
                               stringify (descriptor e region' service' cc')}"
  then have "getCredentialsHash sha256 e region service cc
               \<noteq> getCredentialsHash sha256 e region' service' cc'"
    by (intro getCredentialsHash_differs) auto
  then have "getCredentialsHash sha256 e region' service' cc'
               \<noteq> getCredentialsHash sha256 e region service cc"
    by (rule not_sym)
  with a show "ref h' \<noteq> ref h"
    by (intro getServiceClient_other_key [OF assms(1,2,3)]) auto
next
  fix c ord h' st3
  assume a: "cc = Some c \<and> ord \<noteq> insertion_order c
             \<and> getServiceClient sha256 chk e region service
                   (Some (c\<lparr>insertion_order := ord\<rparr>)) st2 = (Inr h', st3)
             \<and> inj_on sha256 {stringify (descriptor e region service cc),
                               stringify (descriptor e region service
                                            (Some (c\<lparr>insertion_order := ord\<rparr>)))}"
  then have "c\<lparr>insertion_order := ord\<rparr> \<noteq> c"
    by (cases c) auto
  with a have "cc \<noteq> Some (c\<lparr>insertion_order := ord\<rparr>)"
    by auto
  with a have "getCredentialsHash sha256 e region service cc
               \<noteq> getCredentialsHash sha256 e region service (Some (c\<lparr>insertion_order := ord\<rparr>))"
    by (intro getCredentialsHash_differs) auto
  then have "getCredentialsHash sha256 e region service (Some (c\<lparr>insertion_order := ord\<rparr>))
               \<noteq> getCredentialsHash sha256 e region service cc"
    by (rule not_sym)
  with a show "ref h' \<noteq> ref h"
    by (intro getServiceClient_other_key [OF assms(1,2,3)]) auto
qed

theorem getServiceClient_cache_idempotent_witness:
  "fst (getServiceClient id Map.empty \<lparr>env = Map.empty, isInsideLambda = True\<rparr>
          ''eu-central-1'' ''s3''
          (Some \<lparr>endpoint = ''http://localhost:9000'', accessKeyId = None, secretAccessKey = None,
                  insertion_order = endpoint_accessKeyId_secretAccessKey\<rparr>)
          initial_state)
     = Inr \<lparr>ref = 0, cls = S3Client, cfg_region = ''us-east-1'', cfg_credentials = None,
            cfg_endpoint = Some ''http://localhost:9000''\<rparr>
   \<and> fst (getServiceClient id Map.empty \<lparr>env = Map.empty, isInsideLambda = True\<rparr>
          ''eu-central-1'' ''s3''
          (Some \<lparr>endpoint = ''http://localhost:9000'', accessKeyId = None, secretAccessKey = None,
                  insertion_order = endpoint_accessKeyId_secretAccessKey\<rparr>)
          (invocations id Map.empty
             [\<lparr>at_env = \<lparr>env = Map.empty, isInsideLambda = True\<rparr>, at_region = ''eu-central-1'',
               at_service = ''lambda'', at_customCredentials = None\<rparr>]
             (snd (getServiceClient id Map.empty \<lparr>env = Map.empty, isInsideLambda = True\<rparr>
                     ''eu-central-1'' ''s3''
                     (Some \<lparr>endpoint = ''http://localhost:9000'', accessKeyId = None,
                             secretAccessKey = None,
                             insertion_order = endpoint_accessKeyId_secretAccessKey\<rparr>)
                     initial_state))))
     = Inr \<lparr>ref = 0, cls = S3Client, cfg_region = ''us-east-1'', cfg_credentials = None,
            cfg_endpoint = Some ''http://localhost:9000''\<rparr>
   \<and> fst (getServiceClient id Map.empty \<lparr>env = Map.empty, isInsideLambda = True\<rparr>
          ''ap-south-1'' ''s3''
          (Some \<lparr>endpoint = ''http://localhost:9000'', accessKeyId = None, secretAccessKey = None,
                  insertion_order = endpoint_accessKeyId_secretAccessKey\<rparr>)
          (invocations id Map.empty
             [\<lparr>at_env = \<lparr>env = Map.empty, isInsideLambda = True\<rparr>, at_region = ''eu-central-1'',
               at_service = ''lambda'', at_customCredentials = None\<rparr>]
             (snd (getServiceClient id Map.empty \<lparr>env = Map.empty, isInsideLambda = True\<rparr>
                     ''eu-central-1'' ''s3''
                     (Some \<lparr>endpoint = ''http://localhost:9000'', accessKeyId = None,
                             secretAccessKey = None,
                             insertion_order = endpoint_accessKeyId_secretAccessKey\<rparr>)
                     initial_state))))
     = Inr \<lparr>ref = 2, cls = S3Client, cfg_region = ''us-east-1'', cfg_credentials = None,
            cfg_endpoint = Some ''http://localhost:9000''\<rparr>
   \<and> fst (getServiceClient id Map.empty \<lparr>env = Map.empty, isInsideLambda = True\<rparr>
          ''eu-central-1'' ''s3''
          (Some \<lparr>endpoint = ''http://localhost:9000'', accessKeyId = None, secretAccessKey = None,
                  insertion_order = secretAccessKey_accessKeyId_endpoint\<rparr>)
          (invocations id Map.empty
             [\<lparr>at_env = \<lparr>env = Map.empty, isInsideLambda = True\<rparr>, at_region = ''eu-central-1'',
               at_service = ''lambda'', at_customCredentials = None\<rparr>]
             (snd (getServiceClient id Map.empty \<lparr>env = Map.empty, isInsideLambda = True\<rparr>
                     ''eu-central-1'' ''s3''
                     (Some \<lparr>endpoint = ''http://localhost:9000'', accessKeyId = None,
                             secretAccessKey = None,
                             insertion_order = endpoint_accessKeyId_secretAccessKey\<rparr>)
                     initial_state))))
     = Inr \<lparr>ref = 2, cls = S3Client, cfg_region = ''us-east-1'', cfg_credentials = None,
            cfg_endpoint = Some ''http://localhost:9000''\<rparr>"
proof -
  let ?e = "\<lparr>env = Map.empty, isInsideLambda = True\<rparr>"
  let ?c = "\<lparr>endpoint = ''http://localhost:9000'', accessKeyId = None, secretAccessKey = None,
             insertion_order = endpoint_accessKeyId_secretAccessKey\<rparr>"
  let ?h = "\<lparr>ref = 0, cls = S3Client, cfg_region = ''us-east-1'', cfg_credentials = None,
              cfg_endpoint = Some ''http://localhost:9000''\<rparr>"
  let ?h' = "\<lparr>ref = 2, cls = S3Client, cfg_region = ''us-east-1'', cfg_credentials = None,
              cfg_endpoint = Some ''http://localhost:9000''\<rparr>"
  let ?chk = "Map.empty :: environment \<Rightarrow> error option"
  let ?H = "id :: string \<Rightarrow> string"
  define st1 where "st1 = snd (getServiceClient ?H ?chk ?e ''eu-central-1'' ''s3'' (Some ?c) initial_state)"
  define st2 where "st2 = invocations ?H ?chk
                [\<lparr>at_env = ?e, at_region = ''eu-central-1'',
                  at_service = ''lambda'', at_customCredentials = None\<rparr>] st1"
  define st3 where "st3 = snd (getServiceClient ?H ?chk ?e ''ap-south-1'' ''s3'' (Some ?c) st2)"
  define st4 where "st4 = snd (getServiceClient ?H ?chk ?e ''eu-central-1'' ''s3''
                                 (Some (?c\<lparr>insertion_order := secretAccessKey_accessKeyId_endpoint\<rparr>)) st2)"
  have h2: "initial_state = invocations ?H ?chk [] initial_state" by simp
  have f1: "fst (getServiceClient ?H ?chk ?e ''eu-central-1'' ''s3'' (Some ?c) initial_state) = Inr ?h"
    by (simp add: eval_defs)
  then have h3: "getServiceClient ?H ?chk ?e ''eu-central-1'' ''s3'' (Some ?c) initial_state = (Inr ?h, st1)"
    by (simp add: st1_def prod_eq_iff)
  have f3: "fst (getServiceClient ?H ?chk ?e ''ap-south-1'' ''s3'' (Some ?c) st2) = Inr ?h'"
    by (simp add: st2_def st1_def eval_defs)
  then have h5: "getServiceClient ?H ?chk ?e ''ap-south-1'' ''s3'' (Some ?c) st2 = (Inr ?h', st3)"
    by (simp add: st3_def prod_eq_iff)
  have f4: "fst (getServiceClient ?H ?chk ?e ''eu-central-1'' ''s3''
                   (Some (?c\<lparr>insertion_order := secretAccessKey_accessKeyId_endpoint\<rparr>)) st2) = Inr ?h'"
    by (simp add: st2_def st1_def eval_defs)
  then have h6: "getServiceClient ?H ?chk ?e ''eu-central-1'' ''s3''
                   (Some (?c\<lparr>insertion_order := secretAccessKey_accessKeyId_endpoint\<rparr>)) st2 = (Inr ?h', st4)"
    by (simp add: st4_def prod_eq_iff)
  note T = getServiceClient_cache_idempotent [OF h2 h3 st2_def]
  have c1: "getServiceClient ?H ?chk ?e ''eu-central-1'' ''s3'' (Some ?c) st2 = (Inr ?h, st2)"
    by (rule T [THEN conjunct1])
  have c2: "ref ?h' \<noteq> ref ?h"
    by (rule T [THEN conjunct2, THEN conjunct1, rule_format], rule conjI [OF _ conjI [OF h5]])
       simp_all
  have c3: "ref ?h' \<noteq> ref ?h"
    by (rule T [THEN conjunct2, THEN conjunct2, rule_format, of ?c secretAccessKey_accessKeyId_endpoint],
        rule conjI [OF refl conjI [OF _ conjI [OF h6]]])
       simp_all
  from c1 have "fst (getServiceClient ?H ?chk ?e ''eu-central-1'' ''s3'' (Some ?c) st2) = Inr ?h"
    by simp
  with f1 f3 f4 c2 c3 show ?thesis
    unfolding st2_def st1_def by simp
qed

section \<open>The fingerprint\<close>

lemma getCredentialsHash_eq_iff:
  assumes "inj H"
  shows "getCredentialsHash H e r s c = getCredentialsHash H e' r' s' c'
     \<longleftrightarrow> credentials_descriptor e = credentials_descriptor e' \<and> c = c' \<and> r = r' \<and> s = s'"
  unfolding getCredentialsHash_def
  by (simp only: inj_eq [OF assms] stringify_descriptor_inj)

lemma credentials_descriptor_identity:
  assumes "getCredentials e = Some (AwsCredentialIdentity a s)"
  shows "credentials_descriptor e = JObject [(''accessKeyId'', JString a), (''secretAccessKey'', JString s)]"
proof -
  from assms have "\<not> truthy (env e ''REMOTION_AWS_PROFILE'')"
    by (auto simp: getCredentials_def split: if_splits)
  with assms show ?thesis
    by (simp add: credentials_descriptor_def spread_credentials_def)
qed

text \<open>
  C6. Fingerprint sensitivity, the hash being collision-free: with everything else fixed, the
  cache key changes when the region changes, when the service changes, when the endpoint of
  the custom credentials changes, when the access key of the custom credentials changes
  (whatever the property order of the custom credentials), and when the access key of the
  key pair resolved from the environment changes.
\<close>

theorem fingerprint_sensitivity:
  assumes "inj sha256"
  shows "(region \<noteq> region' \<longrightarrow>
            getCredentialsHash sha256 e region service cc
              \<noteq> getCredentialsHash sha256 e region' service cc)
       \<and> (service \<noteq> service' \<longrightarrow>
            getCredentialsHash sha256 e region service cc
              \<noteq> getCredentialsHash sha256 e region service' cc)
       \<and> (ep \<noteq> ep' \<longrightarrow>
            getCredentialsHash sha256 e region service
                (Some \<lparr>endpoint = ep, accessKeyId = ak, secretAccessKey = sk,
                        insertion_order = ord\<rparr>)
              \<noteq> getCredentialsHash sha256 e region service
                (Some \<lparr>endpoint = ep', accessKeyId = ak, secretAccessKey = sk,
                        insertion_order = ord\<rparr>))
       \<and> (ak \<noteq> ak' \<longrightarrow>
            getCredentialsHash sha256 e region service
                (Some \<lparr>endpoint = ep, accessKeyId = ak, secretAccessKey = sk,
                        insertion_order = ord\<rparr>)
              \<noteq> getCredentialsHash sha256 e region service
                (Some \<lparr>endpoint = ep, accessKeyId = ak', secretAccessKey = sk,
                        insertion_order = ord\<rparr>))
       \<and> (getCredentials e = Some (AwsCredentialIdentity a s)
            \<and> getCredentials e' = Some (AwsCredentialIdentity a' s) \<and> a \<noteq> a' \<longrightarrow>
            getCredentialsHash sha256 e region service cc
              \<noteq> getCredentialsHash sha256 e' region service cc)"
proof (intro conjI impI)
  assume "getCredentials e = Some (AwsCredentialIdentity a s)
            \<and> getCredentials e' = Some (AwsCredentialIdentity a' s) \<and> a \<noteq> a'"
  then have "credentials_descriptor e \<noteq> credentials_descriptor e'"
    by (simp add: credentials_descriptor_identity)
  then show "getCredentialsHash sha256 e region service cc
              \<noteq> getCredentialsHash sha256 e' region service cc"
    by (simp add: getCredentialsHash_eq_iff [OF assms])
qed (simp_all add: getCredentialsHash_eq_iff [OF assms])

theorem fingerprint_sensitivity_witness:
  "inj (id :: string \<Rightarrow> string)
   \<and> getCredentialsHash id \<lparr>env = Map.empty, isInsideLambda = False\<rparr> ''eu-central-1'' ''s3'' None
       \<noteq> getCredentialsHash id \<lparr>env = Map.empty, isInsideLambda = False\<rparr> ''us-east-1'' ''s3'' None
   \<and> getCredentialsHash id \<lparr>env = Map.empty, isInsideLambda = False\<rparr> ''eu-central-1'' ''s3'' None
       \<noteq> getCredentialsHash id \<lparr>env = Map.empty, isInsideLambda = False\<rparr> ''eu-central-1'' ''iam'' None
   \<and> getCredentialsHash id \<lparr>env = Map.empty, isInsideLambda = False\<rparr> ''eu-central-1'' ''s3''
         (Some \<lparr>endpoint = ''http://a'', accessKeyId = Some ''K1'', secretAccessKey = None,
                 insertion_order = endpoint_accessKeyId_secretAccessKey\<rparr>)
       \<noteq> getCredentialsHash id \<lparr>env = Map.empty, isInsideLambda = False\<rparr> ''eu-central-1'' ''s3''
         (Some \<lparr>endpoint = ''http://b'', accessKeyId = Some ''K1'', secretAccessKey = None,
                 insertion_order = endpoint_accessKeyId_secretAccessKey\<rparr>)
   \<and> getCredentialsHash id \<lparr>env = Map.empty, isInsideLambda = False\<rparr> ''eu-central-1'' ''s3''
         (Some \<lparr>endpoint = ''http://a'', accessKeyId = Some ''K1'', secretAccessKey = None,
                 insertion_order = endpoint_accessKeyId_secretAccessKey\<rparr>)
       \<noteq> getCredentialsHash id \<lparr>env = Map.empty, isInsideLambda = False\<rparr> ''eu-central-1'' ''s3''
         (Some \<lparr>endpoint = ''http://a'', accessKeyId = Some ''K2'', secretAccessKey = None,
                 insertion_order = endpoint_accessKeyId_secretAccessKey\<rparr>)
   \<and> getCredentialsHash id
         \<lparr>env = [''AWS_ACCESS_KEY_ID'' \<mapsto> ''K1'', ''AWS_SECRET_ACCESS_KEY'' \<mapsto> ''S''],
          isInsideLambda = False\<rparr> ''eu-central-1'' ''s3'' None
       \<noteq> getCredentialsHash id
         \<lparr>env = [''AWS_ACCESS_KEY_ID'' \<mapsto> ''K2'', ''AWS_SECRET_ACCESS_KEY'' \<mapsto> ''S''],
          isInsideLambda = False\<rparr> ''eu-central-1'' ''s3'' None"
proof -
  let ?e = "\<lparr>env = Map.empty, isInsideLambda = False\<rparr>"
  let ?e1 = "\<lparr>env = [''AWS_ACCESS_KEY_ID'' \<mapsto> ''K1'', ''AWS_SECRET_ACCESS_KEY'' \<mapsto> ''S''],
          isInsideLambda = False\<rparr>"
  let ?e2 = "\<lparr>env = [''AWS_ACCESS_KEY_ID'' \<mapsto> ''K2'', ''AWS_SECRET_ACCESS_KEY'' \<mapsto> ''S''],
          isInsideLambda = False\<rparr>"
  have h: "inj (id :: string \<Rightarrow> string)" by simp
  have g1: "getCredentials ?e1 = Some (AwsCredentialIdentity ''K1'' ''S'')"
    and g2: "getCredentials ?e2 = Some (AwsCredentialIdentity ''K2'' ''S'')"
    by (simp_all add: getCredentials_def truthy_def)
  from fingerprint_sensitivity [OF h, of "''eu-central-1''" "''us-east-1''" ?e "''s3''" None]
  have c1: "getCredentialsHash id ?e ''eu-central-1'' ''s3'' None
             \<noteq> getCredentialsHash id ?e ''us-east-1'' ''s3'' None" by simp
  from fingerprint_sensitivity [OF h, of _ _ ?e "''s3''" None "''iam''" , where region = "''eu-central-1''"]
  have c2: "getCredentialsHash id ?e ''eu-central-1'' ''s3'' None
             \<noteq> getCredentialsHash id ?e ''eu-central-1'' ''iam'' None" by simp
  from fingerprint_sensitivity [OF h, where ep = "''http://a''" and ep' = "''http://b''"
      and ak = "Some ''K1''" and sk = None and ord = endpoint_accessKeyId_secretAccessKey and e = ?e and region = "''eu-central-1''" and service = "''s3''"]
  have c3: "getCredentialsHash id ?e ''eu-central-1'' ''s3''
         (Some \<lparr>endpoint = ''http://a'', accessKeyId = Some ''K1'', secretAccessKey = None,
                 insertion_order = endpoint_accessKeyId_secretAccessKey\<rparr>)
       \<noteq> getCredentialsHash id ?e ''eu-central-1'' ''s3''
         (Some \<lparr>endpoint = ''http://b'', accessKeyId = Some ''K1'', secretAccessKey = None,
                 insertion_order = endpoint_accessKeyId_secretAccessKey\<rparr>)" by simp
  from fingerprint_sensitivity [OF h, where ep = "''http://a''" and ak' = "Some ''K2''"
      and ak = "Some ''K1''" and sk = None and ord = endpoint_accessKeyId_secretAccessKey and e = ?e and region = "''eu-central-1''" and service = "''s3''"]
  have c4: "getCredentialsHash id ?e ''eu-central-1'' ''s3''
         (Some \<lparr>endpoint = ''http://a'', accessKeyId = Some ''K1'', secretAccessKey = None,
                 insertion_order = endpoint_accessKeyId_secretAccessKey\<rparr>)
       \<noteq> getCredentialsHash id ?e ''eu-central-1'' ''s3''
         (Some \<lparr>endpoint = ''http://a'', accessKeyId = Some ''K2'', secretAccessKey = None,
                 insertion_order = endpoint_accessKeyId_secretAccessKey\<rparr>)" by simp
  from fingerprint_sensitivity [OF h, where e = ?e1 and e' = ?e2 and a = "''K1''" and a' = "''K2''"
      and s = "''S''" and region = "''eu-central-1''" and service = "''s3''" and cc = None] g1 g2
  have c5: "getCredentialsHash id ?e1 ''eu-central-1'' ''s3'' None
             \<noteq> getCredentialsHash id ?e2 ''eu-central-1'' ''s3'' None" by simp
  from h c1 c2 c3 c4 c5 show ?thesis by blast
qed

text \<open>
  C7 as stated fails for custom credentials held fixed value by value but written with their
  properties in another order: the serialised descriptors differ, and so do the fingerprints
  (the digest being stood for by the identity, as a collision-free hash).
\<close>

theorem fingerprint_property_order_counterexample:
  "stringify (descriptor \<lparr>env = Map.empty, isInsideLambda = False\<rparr> ''eu-central-1'' ''s3''
      (Some \<lparr>endpoint = ''http://localhost:9000'', accessKeyId = Some ''K'',
              secretAccessKey = Some ''S'',
              insertion_order = endpoint_accessKeyId_secretAccessKey\<rparr>))
     \<noteq> stringify (descriptor \<lparr>env = Map.empty, isInsideLambda = False\<rparr> ''eu-central-1'' ''s3''
      (Some \<lparr>endpoint = ''http://localhost:9000'', accessKeyId = Some ''K'',
              secretAccessKey = Some ''S'',
              insertion_order = secretAccessKey_accessKeyId_endpoint\<rparr>))
   \<and> getCredentialsHash id \<lparr>env = Map.empty, isInsideLambda = False\<rparr> ''eu-central-1'' ''s3''
      (Some \<lparr>endpoint = ''http://localhost:9000'', accessKeyId = Some ''K'',
              secretAccessKey = Some ''S'',
              insertion_order = endpoint_accessKeyId_secretAccessKey\<rparr>)
     \<noteq> getCredentialsHash id \<lparr>env = Map.empty, isInsideLambda = False\<rparr> ''eu-central-1'' ''s3''
      (Some \<lparr>endpoint = ''http://localhost:9000'', accessKeyId = Some ''K'',
              secretAccessKey = Some ''S'',
              insertion_order = secretAccessKey_accessKeyId_endpoint\<rparr>)"
  by (simp add: eval_defs)

text \<open>
  C7, amended. Fingerprint determinism: the cache key is a function of the region, the service,
  the custom credentials as written (their three values and their property order), the five
  environment variables the module reads and the inside-Lambda status. Two calls that agree
  on all of these give the same key, whatever else differs between their environments. The
  property order is part of what must agree: the same values in another order are serialised
  differently, so their keys differ unless the hash collides.
\<close>

theorem fingerprint_determinism:
  assumes "\<forall>v \<in> {''REMOTION_AWS_PROFILE'', ''REMOTION_AWS_ACCESS_KEY_ID'',
                   ''REMOTION_AWS_SECRET_ACCESS_KEY'', ''AWS_ACCESS_KEY_ID'',
                   ''AWS_SECRET_ACCESS_KEY''}. env e v = env e' v"
    and "isInsideLambda e = isInsideLambda e'"
  shows "(cc = None \<and> cc' = None
          \<or> (\<exists>c c'. cc = Some c \<and> cc' = Some c' \<and> endpoint c = endpoint c'
                \<and> accessKeyId c = accessKeyId c' \<and> secretAccessKey c = secretAccessKey c'
                \<and> insertion_order c = insertion_order c')
          \<longrightarrow> getCredentialsHash sha256 e region service cc
                = getCredentialsHash sha256 e' region service cc')
       \<and> (ord \<noteq> insertion_order c \<longrightarrow>
            stringify (descriptor e region service (Some c))
              \<noteq> stringify (descriptor e' region service (Some (c\<lparr>insertion_order := ord\<rparr>)))
            \<and> (inj_on sha256
                  {stringify (descriptor e region service (Some c)),
                   stringify (descriptor e' region service (Some (c\<lparr>insertion_order := ord\<rparr>)))}
                \<longrightarrow> getCredentialsHash sha256 e region service (Some c)
                      \<noteq> getCredentialsHash sha256 e' region service
                           (Some (c\<lparr>insertion_order := ord\<rparr>))))"
proof (intro conjI impI)
  from assms have "getCredentials e = getCredentials e'"
    by (simp add: getCredentials_def)
  with assms(1) have cd: "credentials_descriptor e = credentials_descriptor e'"
    by (simp add: credentials_descriptor_def)
  assume "cc = None \<and> cc' = None
          \<or> (\<exists>c c'. cc = Some c \<and> cc' = Some c' \<and> endpoint c = endpoint c'
                \<and> accessKeyId c = accessKeyId c' \<and> secretAccessKey c = secretAccessKey c'
                \<and> insertion_order c = insertion_order c')"
  then have "cc = cc'"
    by auto
  with cd show "getCredentialsHash sha256 e region service cc
                = getCredentialsHash sha256 e' region service cc'"
    by (simp add: getCredentialsHash_def descriptor_def)
next
  assume o: "ord \<noteq> insertion_order c"
  then have ne: "Some c \<noteq> Some (c\<lparr>insertion_order := ord\<rparr>)"
    by (cases c) auto
  then show "stringify (descriptor e region service (Some c))
              \<noteq> stringify (descriptor e' region service (Some (c\<lparr>insertion_order := ord\<rparr>)))"
    by (simp only: stringify_descriptor_inj) simp
  assume "inj_on sha256
                  {stringify (descriptor e region service (Some c)),
                   stringify (descriptor e' region service (Some (c\<lparr>insertion_order := ord\<rparr>)))}"
  then show "getCredentialsHash sha256 e region service (Some c)
                      \<noteq> getCredentialsHash sha256 e' region service
                           (Some (c\<lparr>insertion_order := ord\<rparr>))"
    using ne by (intro getCredentialsHash_differs) auto
qed

theorem fingerprint_determinism_witness:
  "getCredentialsHash id
      \<lparr>env = [''AWS_ACCESS_KEY_ID'' \<mapsto> ''K'', ''AWS_SECRET_ACCESS_KEY'' \<mapsto> ''S'',
              ''HOME'' \<mapsto> ''/home/a''], isInsideLambda = False\<rparr> ''eu-central-1'' ''s3''
      (Some \<lparr>endpoint = ''http://localhost:9000'', accessKeyId = Some ''K'',
              secretAccessKey = Some ''S'',
              insertion_order = endpoint_accessKeyId_secretAccessKey\<rparr>)
   = getCredentialsHash id
      \<lparr>env = [''AWS_ACCESS_KEY_ID'' \<mapsto> ''K'', ''AWS_SECRET_ACCESS_KEY'' \<mapsto> ''S'',
              ''HOME'' \<mapsto> ''/home/b''], isInsideLambda = False\<rparr> ''eu-central-1'' ''s3''
      (Some \<lparr>endpoint = ''http://localhost:9000'', accessKeyId = Some ''K'',
              secretAccessKey = Some ''S'',
              insertion_order = endpoint_accessKeyId_secretAccessKey\<rparr>)
   \<and> getCredentialsHash id
      \<lparr>env = [''AWS_ACCESS_KEY_ID'' \<mapsto> ''K'', ''AWS_SECRET_ACCESS_KEY'' \<mapsto> ''S'',
              ''HOME'' \<mapsto> ''/home/a''], isInsideLambda = False\<rparr> ''eu-central-1'' ''s3''
      (Some \<lparr>endpoint = ''http://localhost:9000'', accessKeyId = Some ''K'',
              secretAccessKey = Some ''S'',
              insertion_order = endpoint_accessKeyId_secretAccessKey\<rparr>)
   \<noteq> getCredentialsHash id
      \<lparr>env = [''AWS_ACCESS_KEY_ID'' \<mapsto> ''K'', ''AWS_SECRET_ACCESS_KEY'' \<mapsto> ''S'',
              ''HOME'' \<mapsto> ''/home/b''], isInsideLambda = False\<rparr> ''eu-central-1'' ''s3''
      (Some \<lparr>endpoint = ''http://localhost:9000'', accessKeyId = Some ''K'',
              secretAccessKey = Some ''S'',
              insertion_order = secretAccessKey_accessKeyId_endpoint\<rparr>)"
proof -
  let ?e = "\<lparr>env = [''AWS_ACCESS_KEY_ID'' \<mapsto> ''K'', ''AWS_SECRET_ACCESS_KEY'' \<mapsto> ''S'',
              ''HOME'' \<mapsto> ''/home/a''], isInsideLambda = False\<rparr>"
  let ?e' = "\<lparr>env = [''AWS_ACCESS_KEY_ID'' \<mapsto> ''K'', ''AWS_SECRET_ACCESS_KEY'' \<mapsto> ''S'',
              ''HOME'' \<mapsto> ''/home/b''], isInsideLambda = False\<rparr>"
  let ?c = "\<lparr>endpoint = ''http://localhost:9000'', accessKeyId = Some ''K'',
              secretAccessKey = Some ''S'',
              insertion_order = endpoint_accessKeyId_secretAccessKey\<rparr>"
  have a: "\<forall>v \<in> {''REMOTION_AWS_PROFILE'', ''REMOTION_AWS_ACCESS_KEY_ID'',
                   ''REMOTION_AWS_SECRET_ACCESS_KEY'', ''AWS_ACCESS_KEY_ID'',
                   ''AWS_SECRET_ACCESS_KEY''}. env ?e v = env ?e' v"
    by simp
  have b: "isInsideLambda ?e = isInsideLambda ?e'"
    by simp
  note T = fingerprint_determinism [OF a b]
  have 1: "getCredentialsHash id ?e ''eu-central-1'' ''s3'' (Some ?c)
         = getCredentialsHash id ?e' ''eu-central-1'' ''s3'' (Some ?c)"
    by (rule T [THEN conjunct1, rule_format]) simp
  have 2: "getCredentialsHash id ?e ''eu-central-1'' ''s3'' (Some ?c)
         \<noteq> getCredentialsHash id ?e' ''eu-central-1'' ''s3''
              (Some (?c\<lparr>insertion_order := secretAccessKey_accessKeyId_endpoint\<rparr>))"
    by (rule T [THEN conjunct2, rule_format, THEN conjunct2, rule_format]) simp_all
  from 1 2 show ?thesis by simp
qed

section \<open>Client construction\<close>

text \<open>
  C9 as stated fails where a custom key is present but empty: the source tests
  \<open>accessKeyId && secretAccessKey\<close>, and the empty string is falsy. With
  \<open>accessKeyId = ""\<close> and \<open>secretAccessKey = "secret"\<close>, both non-null, the client is
  constructed with \<open>credentials: undefined\<close>.
\<close>

theorem custom_credentials_empty_key_counterexample:
  "fst (getServiceClient id Map.empty \<lparr>env = Map.empty, isInsideLambda = False\<rparr>
          ''eu-central-1'' ''s3''
          (Some \<lparr>endpoint = ''http://localhost:9000'', accessKeyId = Some [],
                  secretAccessKey = Some ''secret'',
                  insertion_order = endpoint_accessKeyId_secretAccessKey\<rparr>)
          initial_state)
     = Inr \<lparr>ref = 0, cls = S3Client, cfg_region = ''us-east-1'', cfg_credentials = None,
            cfg_endpoint = Some ''http://localhost:9000''\<rparr>"
  by (simp add: eval_defs)

text \<open>
  C9, amended. On a cache miss (known service, no entry under the key, \<open>checkCredentials\<close>
  returns) a client of the service's class is constructed, stored under the key and returned.
  With custom credentials its region is \<open>us-east-1\<close> whatever region was requested, its
  endpoint is the custom endpoint, and its credentials are the custom key pair when both
  \<open>accessKeyId\<close> and \<open>secretAccessKey\<close> are non-null and non-empty, and \<open>undefined\<close> when either
  is null or empty. Without custom credentials its region is the requested one and its
  credentials are what \<open>getCredentials\<close> resolves.
\<close>

theorem getServiceClient_construction:
  assumes "Client service = Inr k"
    and "clients st (getCredentialsHash sha256 e region service customCredentials) = None"
    and "checkCredentials e = None"
  shows "\<exists>c st'.
      getServiceClient sha256 checkCredentials e region service customCredentials st = (Inr c, st')
      \<and> clients st' (getCredentialsHash sha256 e region service customCredentials) = Some c
      \<and> cls c = k
      \<and> (\<forall>cc. customCredentials = Some cc \<longrightarrow>
             cfg_region c = ''us-east-1''
             \<and> cfg_endpoint c = Some (endpoint cc)
             \<and> (\<forall>a s. accessKeyId cc = Some a \<and> a \<noteq> [] \<and> secretAccessKey cc = Some s \<and> s \<noteq> []
                    \<longrightarrow> cfg_credentials c = Some (AwsCredentialIdentity a s))
             \<and> (accessKeyId cc = None \<or> accessKeyId cc = Some []
                 \<or> secretAccessKey cc = None \<or> secretAccessKey cc = Some []
                    \<longrightarrow> cfg_credentials c = None))
      \<and> (customCredentials = None \<longrightarrow>
             cfg_region c = region \<and> cfg_credentials c = getCredentials e
             \<and> cfg_endpoint c = None)"
proof (cases customCredentials)
  case None
  with assms show ?thesis
    by (simp add: getServiceClient_def new_client_def Let_def)
next
  case (Some cc)
  with assms show ?thesis
    by (auto simp: getServiceClient_def new_client_def truthy_def Let_def)
qed

theorem getServiceClient_construction_witness:
  "(\<exists>c st'. getServiceClient id Map.empty \<lparr>env = Map.empty, isInsideLambda = False\<rparr>
                ''eu-central-1'' ''s3''
                (Some \<lparr>endpoint = ''http://localhost:9000'', accessKeyId = Some ''K'',
                        secretAccessKey = Some ''S'',
                        insertion_order = endpoint_accessKeyId_secretAccessKey\<rparr>) initial_state = (Inr c, st')
            \<and> cls c = S3Client \<and> cfg_region c = ''us-east-1''
            \<and> cfg_endpoint c = Some ''http://localhost:9000''
            \<and> cfg_credentials c = Some (AwsCredentialIdentity ''K'' ''S''))
   \<and> (\<exists>c st'. getServiceClient id Map.empty \<lparr>env = Map.empty, isInsideLambda = False\<rparr>
                ''eu-central-1'' ''s3''
                (Some \<lparr>endpoint = ''http://localhost:9000'', accessKeyId = None,
                        secretAccessKey = Some ''S'',
                        insertion_order = endpoint_accessKeyId_secretAccessKey\<rparr>) initial_state = (Inr c, st')
            \<and> cls c = S3Client \<and> cfg_region c = ''us-east-1''
            \<and> cfg_endpoint c = Some ''http://localhost:9000''
            \<and> cfg_credentials c = None)
   \<and> (\<exists>c st'. getServiceClient id Map.empty
                \<lparr>env = [''AWS_ACCESS_KEY_ID'' \<mapsto> ''K'', ''AWS_SECRET_ACCESS_KEY'' \<mapsto> ''S''],
                 isInsideLambda = False\<rparr>
                ''eu-central-1'' ''s3'' None initial_state = (Inr c, st')
            \<and> cls c = S3Client \<and> cfg_region c = ''eu-central-1''
            \<and> cfg_endpoint c = None
            \<and> cfg_credentials c = Some (AwsCredentialIdentity ''K'' ''S''))"
proof -
  have k: "Client ''s3'' = Inr S3Client" by (simp add: Client_def)
  have m: "clients initial_state key = None" for key by (simp add: initial_state_def)
  have c: "(Map.empty :: environment \<Rightarrow> error option) e = None" for e by simp
  have g: "getCredentials \<lparr>env = [''AWS_ACCESS_KEY_ID'' \<mapsto> ''K'', ''AWS_SECRET_ACCESS_KEY'' \<mapsto> ''S''],
                 isInsideLambda = False\<rparr> = Some (AwsCredentialIdentity ''K'' ''S'')"
    by (simp add: getCredentials_def truthy_def)
  from getServiceClient_construction [OF k m c, of id "\<lparr>env = Map.empty, isInsideLambda = False\<rparr>"
      "''eu-central-1''" "Some \<lparr>endpoint = ''http://localhost:9000'', accessKeyId = Some ''K'',
                        secretAccessKey = Some ''S'',
                        insertion_order = endpoint_accessKeyId_secretAccessKey\<rparr>"]
  have w1: "\<exists>c st'. getServiceClient id Map.empty \<lparr>env = Map.empty, isInsideLambda = False\<rparr>
                ''eu-central-1'' ''s3''
                (Some \<lparr>endpoint = ''http://localhost:9000'', accessKeyId = Some ''K'',
                        secretAccessKey = Some ''S'',
                        insertion_order = endpoint_accessKeyId_secretAccessKey\<rparr>) initial_state = (Inr c, st')
            \<and> cls c = S3Client \<and> cfg_region c = ''us-east-1''
            \<and> cfg_endpoint c = Some ''http://localhost:9000''
            \<and> cfg_credentials c = Some (AwsCredentialIdentity ''K'' ''S'')"
    by auto
  from getServiceClient_construction [OF k m c, of id "\<lparr>env = Map.empty, isInsideLambda = False\<rparr>"
      "''eu-central-1''" "Some \<lparr>endpoint = ''http://localhost:9000'', accessKeyId = None,
                        secretAccessKey = Some ''S'',
                        insertion_order = endpoint_accessKeyId_secretAccessKey\<rparr>"]
  have w2: "\<exists>c st'. getServiceClient id Map.empty \<lparr>env = Map.empty, isInsideLambda = False\<rparr>
                ''eu-central-1'' ''s3''
                (Some \<lparr>endpoint = ''http://localhost:9000'', accessKeyId = None,
                        secretAccessKey = Some ''S'',
                        insertion_order = endpoint_accessKeyId_secretAccessKey\<rparr>) initial_state = (Inr c, st')
            \<and> cls c = S3Client \<and> cfg_region c = ''us-east-1''
            \<and> cfg_endpoint c = Some ''http://localhost:9000''
            \<and> cfg_credentials c = None"
    by auto
  from getServiceClient_construction [OF k m c, of id
      "\<lparr>env = [''AWS_ACCESS_KEY_ID'' \<mapsto> ''K'', ''AWS_SECRET_ACCESS_KEY'' \<mapsto> ''S''],
                 isInsideLambda = False\<rparr>" "''eu-central-1''" None] g
  have w3: "\<exists>c st'. getServiceClient id Map.empty
                \<lparr>env = [''AWS_ACCESS_KEY_ID'' \<mapsto> ''K'', ''AWS_SECRET_ACCESS_KEY'' \<mapsto> ''S''],
                 isInsideLambda = False\<rparr>
                ''eu-central-1'' ''s3'' None initial_state = (Inr c, st')
            \<and> cls c = S3Client \<and> cfg_region c = ''eu-central-1''
            \<and> cfg_endpoint c = None
            \<and> cfg_credentials c = Some (AwsCredentialIdentity ''K'' ''S'')"
    by auto
  from w1 w2 w3 show ?thesis by blast
qed

section \<open>Identity normalisation\<close>

subsection \<open>The matcher on runs of a class\<close>

lemma first_some_map_hd:
  "f x = Some y \<Longrightarrow> first_some (map f (x # xs)) = Some y"
  by simp

lemma first_some_map_SomeD:
  "first_some (map f xs) = Some y \<Longrightarrow> \<exists>x \<in> set xs. f x = Some y"
proof (induction xs)
  case Nil
  then show ?case by simp
next
  case (Cons a xs)
  then show ?case by (cases "f a") auto
qed

lemma takeWhile_run:
  assumes "\<forall>c \<in> set xs. P c" and "rest = [] \<or> \<not> P (hd rest)"
  shows "takeWhile P (xs @ rest) = xs"
proof -
  from assms(2) have "takeWhile P rest = []"
    by (cases rest) auto
  with assms(1) show ?thesis
    by (simp add: takeWhile_append2)
qed

lemma rev_upt_Suc: "lo \<le> n \<Longrightarrow> rev [lo ..< Suc n] = n # rev [lo ..< n]"
  by simp

lemma match_here_CapPlus_greedy:
  assumes "xs \<noteq> []" and "\<forall>c \<in> set xs. in_class C c"
    and "rest = [] \<or> \<not> in_class C (hd rest)"
    and "match_here p rest = Some (m, gs)"
  shows "match_here (CapPlus C # p) (xs @ rest) = Some (xs @ m, xs # gs)"
proof -
  have n: "length (takeWhile (in_class C) (xs @ rest)) = length xs"
    using takeWhile_run [OF assms(2,3)] by simp
  from assms(1) have "1 \<le> length xs"
    by (cases xs) simp_all
  then have "rev [1 ..< Suc (length xs)] = length xs # rev [1 ..< length xs]"
    by (rule rev_upt_Suc)
  with n assms(4) show ?thesis by simp
qed

lemma match_here_CapStar_greedy:
  assumes "\<forall>c \<in> set xs. in_class C c"
    and "rest = [] \<or> \<not> in_class C (hd rest)"
    and "match_here p rest = Some (m, gs)"
  shows "match_here (CapStar C # p) (xs @ rest) = Some (xs @ m, xs # gs)"
proof -
  have n: "length (takeWhile (in_class C) (xs @ rest)) = length xs"
    using takeWhile_run [OF assms(1,2)] by simp
  have "rev [0 ..< Suc (length xs)] = length xs # rev [0 ..< length xs]"
    by (rule rev_upt_Suc) simp
  with n assms(3) show ?thesis by simp
qed

lemma match_here_CapStar_last:
  "match_here [CapStar C] s = Some (takeWhile (in_class C) s, [takeWhile (in_class C) s])"
proof -
  have a: "\<forall>c \<in> set (takeWhile (in_class C) s). in_class C c"
    by (auto dest: set_takeWhileD)
  have b: "dropWhile (in_class C) s = [] \<or> \<not> in_class C (hd (dropWhile (in_class C) s))"
    using hd_dropWhile [of "in_class C" s] by blast
  have c: "match_here [] (dropWhile (in_class C) s) = Some ([], [])"
    by simp
  from match_here_CapStar_greedy [OF a b c]
  show ?thesis
    by (simp only: takeWhile_dropWhile_id append_Nil2)
qed

lemma match_here_Lits:
  "match_here (map Lit lits @ p) (lits @ s)
     = map_option (\<lambda>(m, gs). (lits @ m, gs)) (match_here p s)"
proof (induction lits)
  case Nil
  show ?case by (cases "match_here p s") auto
next
  case (Cons c lits)
  then show ?case by (cases "match_here p s") auto
qed

lemma regexp_match_here:
  "match_here p s = Some (m, gs) \<Longrightarrow> regexp_match p s = Some (m # gs)"
  by (cases s) simp_all

lemma in_class_colon [simp]: "\<not> is_word CHR '':''" "\<not> is_digit CHR '':''"
  by (simp_all add: is_word_def is_digit_def)

lemma match_here_arn:
  assumes "svc \<noteq> []" "\<forall>c \<in> set svc. is_word c"
    and "acct \<noteq> []" "\<forall>c \<in> set acct. is_digit c"
    and "rtype \<noteq> []" "CHR ''/'' \<notin> set rtype"
    and "rem = [] \<or> hd rem = CHR ''/''"
  shows "match_here arn_re (''arn:aws:'' @ svc @ ''::'' @ acct @ '':'' @ rtype @ rem)
         = Some (''arn:aws:'' @ svc @ ''::'' @ acct @ '':'' @ rtype
                   @ takeWhile (in_class Dot) rem,
                 [svc, acct, rtype, takeWhile (in_class Dot) rem])"
proof -
  let ?tail = "takeWhile (in_class Dot) rem"
  have 4: "match_here [CapStar Dot] rem = Some (?tail, [?tail])"
    by (rule match_here_CapStar_last)
  have 3: "match_here [CapPlus NotSlash, CapStar Dot] (rtype @ rem)
             = Some (rtype @ ?tail, [rtype, ?tail])"
    using assms(5,6,7) by (intro match_here_CapPlus_greedy 4) auto
  then have "match_here (map Lit '':'' @ [CapPlus NotSlash, CapStar Dot]) ('':'' @ rtype @ rem)
             = Some ('':'' @ rtype @ ?tail, [rtype, ?tail])"
    by (simp only: match_here_Lits) simp
  then have 2: "match_here (CapPlus Digit # map Lit '':'' @ [CapPlus NotSlash, CapStar Dot])
               (acct @ ('':'' @ rtype @ rem))
             = Some (acct @ '':'' @ rtype @ ?tail, [acct, rtype, ?tail])"
    using assms(3,4) by (intro match_here_CapPlus_greedy) auto
  then have "match_here (map Lit ''::'' @ CapPlus Digit # map Lit '':'' @ [CapPlus NotSlash, CapStar Dot])
               (''::'' @ acct @ ('':'' @ rtype @ rem))
             = Some (''::'' @ acct @ '':'' @ rtype @ ?tail, [acct, rtype, ?tail])"
    by (simp only: match_here_Lits) simp
  then have 1: "match_here (CapPlus WordOrDigit # map Lit ''::'' @ CapPlus Digit # map Lit '':''
                   @ [CapPlus NotSlash, CapStar Dot])
               (svc @ (''::'' @ acct @ ('':'' @ rtype @ rem)))
             = Some (svc @ ''::'' @ acct @ '':'' @ rtype @ ?tail, [svc, acct, rtype, ?tail])"
    using assms(1,2) by (intro match_here_CapPlus_greedy) auto
  have "match_here (map Lit ''arn:aws:'' @ CapPlus WordOrDigit # map Lit ''::'' @ CapPlus Digit # map Lit '':''
                   @ [CapPlus NotSlash, CapStar Dot])
               (''arn:aws:'' @ svc @ (''::'' @ acct @ ('':'' @ rtype @ rem)))
             = Some (''arn:aws:'' @ svc @ ''::'' @ acct @ '':'' @ rtype @ ?tail, [svc, acct, rtype, ?tail])"
    by (simp only: match_here_Lits 1) simp
  then show ?thesis
    by (simp add: arn_re_def)
qed

subsection \<open>The two patterns\<close>

lemma regexp_match_arn:
  assumes "svc \<noteq> []" "\<forall>c \<in> set svc. is_word c"
    and "acct \<noteq> []" "\<forall>c \<in> set acct. is_digit c"
    and "rtype \<noteq> []" "CHR ''/'' \<notin> set rtype"
    and "rem = [] \<or> hd rem = CHR ''/''"
  shows "regexp_match arn_re (''arn:aws:'' @ svc @ ''::'' @ acct @ '':'' @ rtype @ rem)
         = Some [''arn:aws:'' @ svc @ ''::'' @ acct @ '':'' @ rtype
                   @ takeWhile (in_class Dot) rem,
                 svc, acct, rtype, takeWhile (in_class Dot) rem]"
  by (rule regexp_match_here) (rule match_here_arn [OF assms])

lemma match_here_role:
  assumes "role \<noteq> []" "CHR ''/'' \<notin> set role"
  shows "match_here role_re (''/'' @ role @ ''/'' @ t)
         = Some (''/'' @ role @ ''/'' @ takeWhile (in_class Dot) t,
                 [role, takeWhile (in_class Dot) t])"
proof -
  let ?tail = "takeWhile (in_class Dot) t"
  have "match_here [CapStar Dot] t = Some (?tail, [?tail])"
    by (rule match_here_CapStar_last)
  then have "match_here [Lit CHR ''/'', CapStar Dot] (''/'' @ t) = Some (''/'' @ ?tail, [?tail])"
    by simp
  then have "match_here [CapPlus NotSlash, Lit CHR ''/'', CapStar Dot] (role @ (''/'' @ t))
               = Some (role @ ''/'' @ ?tail, [role, ?tail])"
    using assms by (intro match_here_CapPlus_greedy) auto
  then show ?thesis
    by (simp add: role_re_def)
qed

lemma match_here_role_D:
  assumes "match_here role_re s = Some r"
  shows "\<exists>t. s = CHR ''/'' # t \<and> CHR ''/'' \<in> set t"
proof (cases s)
  case Nil
  with assms show ?thesis by (simp add: role_re_def)
next
  case (Cons x t)
  with assms have x: "x = CHR ''/''"
    by (simp add: role_re_def split: if_splits)
  with assms Cons obtain r' where
    "match_here [CapPlus NotSlash, Lit CHR ''/'', CapStar Dot] t = Some r'"
    by (auto simp: role_re_def)
  then obtain k where
    "map_option (\<lambda>(m, gs). (take k t @ m, take k t # gs))
       (match_here [Lit CHR ''/'', CapStar Dot] (drop k t)) = Some r'"
    by (auto dest!: first_some_map_SomeD)
  then have "match_here [Lit CHR ''/'', CapStar Dot] (drop k t) \<noteq> None"
    by auto
  then have "hd (drop k t) = CHR ''/'' \<and> drop k t \<noteq> []"
    by (cases "drop k t") (auto split: if_splits)
  then have "CHR ''/'' \<in> set (drop k t)"
    by (metis hd_in_set)
  then have "CHR ''/'' \<in> set t"
    by (rule in_set_dropD)
  with x Cons show ?thesis by simp
qed

lemma match_here_role_None:
  "CHR ''/'' \<notin> set (tl s) \<Longrightarrow> match_here role_re s = None"
  using match_here_role_D [of s] by (cases "match_here role_re s") auto

lemma regexp_match_role_no_slash:
  "CHR ''/'' \<notin> set t \<Longrightarrow> regexp_match role_re t = None"
proof (induction t)
  case Nil
  then show ?case by (simp add: match_here_role_None)
next
  case (Cons x t)
  then have "match_here role_re (x # t) = None"
    by (intro match_here_role_None) simp
  with Cons show ?case by simp
qed

lemma regexp_match_role_one_slash:
  assumes "CHR ''/'' \<notin> set t"
  shows "regexp_match role_re (CHR ''/'' # t) = None"
proof -
  from assms have "match_here role_re (CHR ''/'' # t) = None"
    by (intro match_here_role_None) simp
  with regexp_match_role_no_slash [OF assms] show ?thesis by simp
qed

lemma is_word_literals [simp]:
  "\<forall>c \<in> set ''iam''. is_word c" "\<forall>c \<in> set ''sts''. is_word c"
  by (simp_all add: is_word_def is_digit_def)

lemma takeWhile_Dot_role:
  assumes "\<forall>c \<in> set role. \<not> is_line_terminator c"
  shows "takeWhile (in_class Dot) (''/'' @ role @ ''/'' @ t)
           = ''/'' @ role @ ''/'' @ takeWhile (in_class Dot) t"
  using assms by (simp add: is_line_terminator_def takeWhile_append2)

lemma normalizePrincipal_user:
  assumes "acct \<noteq> []" "\<forall>c \<in> set acct. is_digit c"
  shows "normalizePrincipal (''arn:aws:iam::'' @ acct @ '':user/'' @ userName)
        = Inr (''arn:aws:iam::'' @ acct @ '':user/'' @ userName)"
proof -
  from assms have "regexp_match arn_re (''arn:aws:'' @ ''iam'' @ ''::'' @ acct @ '':'' @ ''user'' @ (''/'' @ userName))
         = Some [''arn:aws:'' @ ''iam'' @ ''::'' @ acct @ '':'' @ ''user''
                   @ takeWhile (in_class Dot) (''/'' @ userName),
                 ''iam'', acct, ''user'', takeWhile (in_class Dot) (''/'' @ userName)]"
    by (intro regexp_match_arn) simp_all
  then have "regexp_match arn_re (''arn:aws:iam::'' @ acct @ '':user/'' @ userName)
         = Some [''arn:aws:'' @ ''iam'' @ ''::'' @ acct @ '':'' @ ''user''
                   @ takeWhile (in_class Dot) (''/'' @ userName),
                 ''iam'', acct, ''user'', takeWhile (in_class Dot) (''/'' @ userName)]"
    by simp
  then show ?thesis
    by (simp add: normalizePrincipal_def)
qed

lemma normalizePrincipal_assumed_role:
  assumes "acct \<noteq> []" "\<forall>c \<in> set acct. is_digit c"
    and "roleName \<noteq> []" "\<forall>c \<in> set roleName. c \<noteq> CHR ''/'' \<and> \<not> is_line_terminator c"
  shows "normalizePrincipal
          (''arn:aws:sts::'' @ acct @ '':assumed-role/'' @ roleName @ ''/'' @ sessionName)
        = Inr (''arn:aws:iam::'' @ acct @ '':role/'' @ roleName)"
proof -
  let ?rem = "''/'' @ roleName @ ''/'' @ sessionName"
  let ?tail = "takeWhile (in_class Dot) sessionName"
  from assms have r: "roleName \<noteq> []" "CHR ''/'' \<notin> set roleName"
    "\<forall>c \<in> set roleName. \<not> is_line_terminator c"
    by auto
  have t: "takeWhile (in_class Dot) ?rem = ''/'' @ roleName @ ''/'' @ ?tail"
    by (rule takeWhile_Dot_role [OF r(3)])
  from assms(1,2) have "regexp_match arn_re (''arn:aws:'' @ ''sts'' @ ''::'' @ acct @ '':'' @ ''assumed-role'' @ ?rem)
         = Some [''arn:aws:'' @ ''sts'' @ ''::'' @ acct @ '':'' @ ''assumed-role''
                   @ takeWhile (in_class Dot) ?rem,
                 ''sts'', acct, ''assumed-role'', takeWhile (in_class Dot) ?rem]"
    by (intro regexp_match_arn) simp_all
  then have m: "regexp_match arn_re
          (''arn:aws:sts::'' @ acct @ '':assumed-role/'' @ roleName @ ''/'' @ sessionName)
         = Some [''arn:aws:'' @ ''sts'' @ ''::'' @ acct @ '':'' @ ''assumed-role''
                   @ takeWhile (in_class Dot) ?rem,
                 ''sts'', acct, ''assumed-role'', ''/'' @ roleName @ ''/'' @ ?tail]"
    by (simp only: t) simp
  have "regexp_match role_re (''/'' @ roleName @ ''/'' @ ?tail)
          = Some [''/'' @ roleName @ ''/'' @ takeWhile (in_class Dot) ?tail,
                  roleName, takeWhile (in_class Dot) ?tail]"
    by (rule regexp_match_here) (rule match_here_role [OF r(1,2)])
  with m show ?thesis
    by (simp add: normalizePrincipal_def)
qed

text \<open>
  C2. The two recognised principal shapes. For every account (a non-empty run of digits) and
  every user name, \<open>arn:aws:iam::<account>:user/<name>\<close> is returned unchanged. For every
  account, every role name (non-empty, without a slash or a line terminator) and every session
  name, \<open>arn:aws:sts::<account>:assumed-role/<roleName>/<sessionName>\<close> becomes
  \<open>arn:aws:iam::<account>:role/<roleName>\<close>.
\<close>

theorem normalizePrincipal_recognized:
  "(acct \<noteq> [] \<and> (\<forall>c \<in> set acct. is_digit c) \<longrightarrow>
      normalizePrincipal (''arn:aws:iam::'' @ acct @ '':user/'' @ userName)
        = Inr (''arn:aws:iam::'' @ acct @ '':user/'' @ userName))
   \<and> (acct \<noteq> [] \<and> (\<forall>c \<in> set acct. is_digit c) \<and> roleName \<noteq> []
       \<and> (\<forall>c \<in> set roleName. c \<noteq> CHR ''/'' \<and> \<not> is_line_terminator c) \<longrightarrow>
      normalizePrincipal
          (''arn:aws:sts::'' @ acct @ '':assumed-role/'' @ roleName @ ''/'' @ sessionName)
        = Inr (''arn:aws:iam::'' @ acct @ '':role/'' @ roleName))"
  using normalizePrincipal_user [of acct userName]
    normalizePrincipal_assumed_role [of acct roleName sessionName]
  by blast

theorem normalizePrincipal_recognized_witness:
  "normalizePrincipal ''arn:aws:iam::123456789012:user/alice''
     = Inr ''arn:aws:iam::123456789012:user/alice''
   \<and> normalizePrincipal ''arn:aws:sts::123456789012:assumed-role/MyRole/session-1''
     = Inr ''arn:aws:iam::123456789012:role/MyRole''"
  using normalizePrincipal_recognized [of "''123456789012''" "''alice''" "''MyRole''" "''session-1''"]
  by (simp add: is_digit_def is_line_terminator_def)

text \<open>
  C5. Two distinct rejections. An ARN \<open>arn:aws:<service>::<account>:<resourceType><rest>\<close>
  whose pair (service, resource type) is neither (iam, user) nor (sts, assumed-role) fails with
  \<open>Unsupported AWS ARN detected\<close>. An sts assumed-role ARN whose remainder is empty, or is a
  slash followed by text without a further slash (a role but no session segment), fails with
  \<open>Unsupported AWS Assumed-Role ARN detected\<close>. The two errors differ.
\<close>

theorem normalizePrincipal_rejections:
  "(svc \<noteq> [] \<and> (\<forall>c \<in> set svc. is_word c) \<and> acct \<noteq> [] \<and> (\<forall>c \<in> set acct. is_digit c)
      \<and> rtype \<noteq> [] \<and> CHR ''/'' \<notin> set rtype \<and> (rem = [] \<or> hd rem = CHR ''/'')
      \<and> (svc, rtype) \<noteq> (''iam'', ''user'') \<and> (svc, rtype) \<noteq> (''sts'', ''assumed-role'') \<longrightarrow>
    normalizePrincipal (''arn:aws:'' @ svc @ ''::'' @ acct @ '':'' @ rtype @ rem)
      = Inl (Error ''Unsupported AWS ARN detected''))
   \<and> (acct \<noteq> [] \<and> (\<forall>c \<in> set acct. is_digit c) \<and> CHR ''/'' \<notin> set role \<longrightarrow>
        normalizePrincipal (''arn:aws:sts::'' @ acct @ '':assumed-role'')
          = Inl (Error ''Unsupported AWS Assumed-Role ARN detected'')
        \<and> normalizePrincipal (''arn:aws:sts::'' @ acct @ '':assumed-role/'' @ role)
          = Inl (Error ''Unsupported AWS Assumed-Role ARN detected''))
   \<and> Error ''Unsupported AWS ARN detected'' \<noteq> Error ''Unsupported AWS Assumed-Role ARN detected''"
proof (intro conjI impI)
  assume a: "svc \<noteq> [] \<and> (\<forall>c \<in> set svc. is_word c) \<and> acct \<noteq> [] \<and> (\<forall>c \<in> set acct. is_digit c)
      \<and> rtype \<noteq> [] \<and> CHR ''/'' \<notin> set rtype \<and> (rem = [] \<or> hd rem = CHR ''/'')
      \<and> (svc, rtype) \<noteq> (''iam'', ''user'') \<and> (svc, rtype) \<noteq> (''sts'', ''assumed-role'')"
  then have "regexp_match arn_re (''arn:aws:'' @ svc @ ''::'' @ acct @ '':'' @ rtype @ rem)
         = Some [''arn:aws:'' @ svc @ ''::'' @ acct @ '':'' @ rtype
                   @ takeWhile (in_class Dot) rem,
                 svc, acct, rtype, takeWhile (in_class Dot) rem]"
    by (intro regexp_match_arn) simp_all
  with a show "normalizePrincipal (''arn:aws:'' @ svc @ ''::'' @ acct @ '':'' @ rtype @ rem)
      = Inl (Error ''Unsupported AWS ARN detected'')"
    by (auto simp: normalizePrincipal_def)
next
  assume a: "acct \<noteq> [] \<and> (\<forall>c \<in> set acct. is_digit c) \<and> CHR ''/'' \<notin> set role"
  have m: "regexp_match arn_re (''arn:aws:'' @ ''sts'' @ ''::'' @ acct @ '':'' @ ''assumed-role'' @ rem)
         = Some [''arn:aws:'' @ ''sts'' @ ''::'' @ acct @ '':'' @ ''assumed-role''
                   @ takeWhile (in_class Dot) rem,
                 ''sts'', acct, ''assumed-role'', takeWhile (in_class Dot) rem]"
    if "rem = [] \<or> hd rem = CHR ''/''" for rem
    using a that by (intro regexp_match_arn) simp_all
  have "regexp_match role_re [] = None"
    by (rule regexp_match_role_no_slash) simp
  with m [of "[]"]
  show "normalizePrincipal (''arn:aws:sts::'' @ acct @ '':assumed-role'')
          = Inl (Error ''Unsupported AWS Assumed-Role ARN detected'')"
    by (simp add: normalizePrincipal_def)
  from a have "CHR ''/'' \<notin> set (takeWhile (in_class Dot) role)"
    by (auto dest: set_takeWhileD)
  then have "regexp_match role_re (CHR ''/'' # takeWhile (in_class Dot) role) = None"
    by (rule regexp_match_role_one_slash)
  moreover have "takeWhile (in_class Dot) (''/'' @ role) = CHR ''/'' # takeWhile (in_class Dot) role"
    by (simp add: is_line_terminator_def)
  ultimately show "normalizePrincipal (''arn:aws:sts::'' @ acct @ '':assumed-role/'' @ role)
          = Inl (Error ''Unsupported AWS Assumed-Role ARN detected'')"
    using m [of "''/'' @ role"] by (simp add: normalizePrincipal_def)
qed simp

theorem normalizePrincipal_rejections_witness:
  "normalizePrincipal ''arn:aws:ec2::123456789012:instance/i-abc''
     = Inl (Error ''Unsupported AWS ARN detected'')
   \<and> normalizePrincipal ''arn:aws:sts::123456789012:assumed-role''
     = Inl (Error ''Unsupported AWS Assumed-Role ARN detected'')
   \<and> normalizePrincipal ''arn:aws:sts::123456789012:assumed-role/onlyrole''
     = Inl (Error ''Unsupported AWS Assumed-Role ARN detected'')"
  using normalizePrincipal_rejections [of "''ec2''" "''123456789012''" "''instance''" "''/i-abc''" "''onlyrole''"]
  by (simp add: is_digit_def is_word_def)

lemma regexp_match_unanchored:
  "match_here p u \<noteq> None \<Longrightarrow> regexp_match p (pre @ u) \<noteq> None"
proof (induction pre)
  case Nil
  then show ?case by (auto dest: regexp_match_here)
next
  case (Cons x xs)
  then show ?case by (cases "match_here p (x # xs @ u)") auto
qed

lemma regexp_match_skip:
  "\<forall>i < length pre. match_here p (drop i pre @ u) = None
     \<Longrightarrow> regexp_match p (pre @ u) = regexp_match p u"
proof (induction pre)
  case Nil
  show ?case by simp
next
  case (Cons x xs)
  from Cons.prems have "match_here p (drop 0 (x # xs) @ u) = None" by blast
  then have 0: "match_here p (x # xs @ u) = None" by simp
  have "match_here p (drop i xs @ u) = None" if "i < length xs" for i
    using Cons.prems [rule_format, of "Suc i"] that by simp
  with Cons.IH have "regexp_match p (xs @ u) = regexp_match p u" by blast
  with 0 show ?case by simp
qed

lemma match_here_arn_first:
  "x \<noteq> CHR ''a'' \<Longrightarrow> match_here arn_re (x # s) = None"
  by (simp add: arn_re_def)

lemma no_match_before:
  assumes "CHR ''a'' \<notin> set pre"
  shows "\<forall>i < length pre. match_here arn_re (drop i pre @ u) = None"
proof (intro allI impI)
  fix i assume i: "i < length pre"
  then have d: "drop i pre = pre ! i # drop (Suc i) pre"
    by (simp add: Cons_nth_drop_Suc)
  from i assms have "pre ! i \<noteq> CHR ''a''"
    by (metis nth_mem)
  then have "match_here arn_re (pre ! i # (drop (Suc i) pre @ u)) = None"
    by (rule match_here_arn_first)
  then show "match_here arn_re (drop i pre @ u) = None"
    unfolding d by simp
qed

section \<open>The simulation loop\<close>

lemma push_results_eq:
  "push_results supplied rs (acc, trace)
     = (acc @ rs, trace @ (if supplied then map OnSimulation rs else []))"
  by (induction rs arbitrary: acc trace) simp_all

lemma simulate_each_all_return:
  assumes "\<forall>per \<in> set pers. \<exists>rs. simulateRule (rule_options arn region per) = Inr rs"
  shows "simulate_each simulateRule supplied arn region pers (acc, trace)
    = (Inr (acc @ concat (map (\<lambda>per. returned (simulateRule (rule_options arn region per))) pers)),
       trace @ concat (map (\<lambda>per. SimulateRule (rule_options arn region per)
                              # (if supplied
                                 then map OnSimulation
                                        (returned (simulateRule (rule_options arn region per)))
                                 else [])) pers))"
  using assms
proof (induction pers arbitrary: acc trace)
  case Nil
  show ?case by simp
next
  case (Cons per pers)
  from Cons.prems obtain rs where rs: "simulateRule (rule_options arn region per) = Inr rs"
    by auto
  from Cons.prems have "\<forall>q \<in> set pers. \<exists>rs. simulateRule (rule_options arn region q) = Inr rs"
    by simp
  from Cons.IH [OF this] rs show ?case
    by (simp add: push_results_eq returned_def)
qed

lemma simulate_each_throw:
  assumes "\<forall>q \<in> set before. \<exists>rs. simulateRule (rule_options arn region q) = Inr rs"
    and "simulateRule (rule_options arn region per) = Inl err"
  shows "simulate_each simulateRule supplied arn region (before @ per # later) (acc, trace)
    = (Inl err,
       trace @ concat (map (\<lambda>q. SimulateRule (rule_options arn region q)
                              # (if supplied
                                 then map OnSimulation
                                        (returned (simulateRule (rule_options arn region q)))
                                 else [])) before)
             @ [SimulateRule (rule_options arn region per)])"
  using assms(1)
proof (induction before arbitrary: acc trace)
  case Nil
  from assms(2) show ?case by simp
next
  case (Cons q before)
  from Cons.prems obtain rs where rs: "simulateRule (rule_options arn region q) = Inr rs"
    by auto
  from Cons.prems have "\<forall>q \<in> set before. \<exists>rs. simulateRule (rule_options arn region q) = Inr rs"
    by simp
  from Cons.IH [OF this] rs show ?case
    by (simp add: push_results_eq returned_def)
qed

lemma simulated_append [simp]: "simulated (xs @ ys) = simulated xs @ simulated ys"
  by (induction xs rule: simulated.induct) simp_all

lemma observed_append [simp]: "observed (xs @ ys) = observed xs @ observed ys"
  by (induction xs rule: observed.induct) simp_all

lemma simulated_callbacks [simp]: "simulated (map OnSimulation rs) = []"
  by (induction rs) simp_all

lemma observed_callbacks [simp]: "observed (map OnSimulation rs) = rs"
  by (induction rs) simp_all

lemma simulated_rounds:
  "simulated (concat (map (\<lambda>per. SimulateRule (f per) # (if supplied then map OnSimulation (g per) else [])) pers))
     = map f pers"
  by (induction pers) simp_all

lemma observed_rounds:
  "observed (concat (map (\<lambda>per. SimulateRule (f per) # (if supplied then map OnSimulation (g per) else [])) pers))
     = (if supplied then concat (map g pers) else [])"
  by (induction pers) simp_all

lemma normalizePrincipal_Nil: "normalizePrincipal [] = Inl (Error ''Unsupported AWS ARN detected'')"
  by (simp add: normalizePrincipal_def arn_re_def)

lemma simulatePermissions_loop:
  assumes "fst (getStsClient sha256 chk e region st) = Inr c"
    and "send c = Inr (Some ci)" and "Arn ci = Some a"
    and "normalizePrincipal a = Inr arn"
  shows "simulatePermissions sha256 chk send simulateRule requiredPermissions e st region supplied
    = (case simulate_each simulateRule supplied arn region requiredPermissions ([], []) of
         (Inl err, trace) \<Rightarrow> (Inl err, trace)
       | (Inr rs, trace) \<Rightarrow> (Inr \<lparr>results = rs\<rparr>, trace))"
proof -
  from assms(4) have "a \<noteq> []"
    using normalizePrincipal_Nil by auto
  with assms show ?thesis
    by (simp add: simulatePermissions_def truthy_def)
qed

lemma normalizePrincipal_alice:
  "normalizePrincipal ''arn:aws:iam::123456789012:user/alice''
     = Inr ''arn:aws:iam::123456789012:user/alice''"
  using normalizePrincipal_user [of "''123456789012''" "''alice''"]
  by (simp add: is_digit_def)

lemma getStsClient_first:
  "fst (getStsClient id Map.empty \<lparr>env = Map.empty, isInsideLambda = True\<rparr> ''eu-central-1''
          initial_state)
     = Inr \<lparr>ref = 0, cls = STSClient, cfg_region = ''eu-central-1'', cfg_credentials = None,
            cfg_endpoint = None\<rparr>"
  by (simp add: getStsClient_def eval_defs)

text \<open>
  C3. Encounter order. When the identity is fetched and normalised and every \<open>simulateRule\<close>
  call returns, \<open>simulatePermissions\<close> returns the results of the permissions in the order of
  \<open>requiredPermissions\<close> and, within a permission, in the order the collaborator returned them.
  Its trace is, permission by permission, the call of \<open>simulateRule\<close> followed by one
  \<open>onSimulation\<close> call per result of that permission, in order (none when no callback was
  supplied): every callback happens before the next permission is simulated and before the
  function returns, and the callback sees exactly the returned results in the returned order.
\<close>

theorem simulatePermissions_encounter_order:
  assumes "fst (getStsClient sha256 chk e region st) = Inr c"
    and "send c = Inr (Some ci)" and "Arn ci = Some a"
    and "normalizePrincipal a = Inr arn"
    and "\<forall>per \<in> set requiredPermissions.
           \<exists>rs. simulateRule (rule_options arn region per) = Inr rs"
  shows "simulatePermissions sha256 chk send simulateRule requiredPermissions e st region supplied
    = (Inr \<lparr>results = concat (map (\<lambda>per. returned (simulateRule (rule_options arn region per)))
                                 requiredPermissions)\<rparr>,
       concat (map (\<lambda>per. SimulateRule (rule_options arn region per)
                      # (if supplied
                         then map OnSimulation (returned (simulateRule (rule_options arn region per)))
                         else [])) requiredPermissions))
    \<and> observed (snd (simulatePermissions sha256 chk send simulateRule requiredPermissions e st
                       region supplied))
       = (if supplied
          then concat (map (\<lambda>per. returned (simulateRule (rule_options arn region per)))
                         requiredPermissions)
          else [])
    \<and> simulated (snd (simulatePermissions sha256 chk send simulateRule requiredPermissions e st
                        region supplied))
       = map (rule_options arn region) requiredPermissions"
proof -
  have eq: "simulatePermissions sha256 chk send simulateRule requiredPermissions e st region supplied
    = (Inr \<lparr>results = concat (map (\<lambda>per. returned (simulateRule (rule_options arn region per)))
                                 requiredPermissions)\<rparr>,
       concat (map (\<lambda>per. SimulateRule (rule_options arn region per)
                      # (if supplied
                         then map OnSimulation (returned (simulateRule (rule_options arn region per)))
                         else [])) requiredPermissions))"
    unfolding simulatePermissions_loop [where send = send, OF assms(1-4)]
      simulate_each_all_return [OF assms(5)]
    by simp
  show ?thesis
    unfolding eq by (simp only: snd_conv simulated_rounds observed_rounds)
qed

theorem simulatePermissions_encounter_order_witness:
  "simulatePermissions id Map.empty
      (\<lambda>c. Inr (Some \<lparr>Arn = Some ''arn:aws:iam::123456789012:user/alice''\<rparr>))
      (\<lambda>opts. Inr (map (\<lambda>a. \<lparr>name = a, decision = ''allowed''\<rparr>) (rule_actionNames opts)))
      [\<lparr>actions = [''lambda:GetFunction'', ''lambda:InvokeFunction''], resource = ''*''\<rparr>,
       \<lparr>actions = [''s3:ListAllMyBuckets''], resource = ''arn:aws:s3:::*''\<rparr>]
      \<lparr>env = Map.empty, isInsideLambda = True\<rparr> initial_state ''eu-central-1'' True
   = (Inr \<lparr>results = [\<lparr>name = ''lambda:GetFunction'', decision = ''allowed''\<rparr>,
                        \<lparr>name = ''lambda:InvokeFunction'', decision = ''allowed''\<rparr>,
                        \<lparr>name = ''s3:ListAllMyBuckets'', decision = ''allowed''\<rparr>]\<rparr>,
      [SimulateRule \<lparr>rule_actionNames = [''lambda:GetFunction'', ''lambda:InvokeFunction''],
                     rule_arn = ''arn:aws:iam::123456789012:user/alice'',
                     rule_region = ''eu-central-1'', rule_resource = ''*'', rule_retries = 2\<rparr>,
       OnSimulation \<lparr>name = ''lambda:GetFunction'', decision = ''allowed''\<rparr>,
       OnSimulation \<lparr>name = ''lambda:InvokeFunction'', decision = ''allowed''\<rparr>,
       SimulateRule \<lparr>rule_actionNames = [''s3:ListAllMyBuckets''],
                     rule_arn = ''arn:aws:iam::123456789012:user/alice'',
                     rule_region = ''eu-central-1'', rule_resource = ''arn:aws:s3:::*'',
                     rule_retries = 2\<rparr>,
       OnSimulation \<lparr>name = ''s3:ListAllMyBuckets'', decision = ''allowed''\<rparr>])"
proof -
  let ?send = "\<lambda>c :: client. Inr (Some \<lparr>Arn = Some ''arn:aws:iam::123456789012:user/alice''\<rparr>)
                   :: error + caller_identity option"
  let ?sim = "\<lambda>opts. Inr (map (\<lambda>a. \<lparr>name = a, decision = ''allowed''\<rparr>) (rule_actionNames opts))
                   :: error + SimulationResult list"
  let ?pers = "[\<lparr>actions = [''lambda:GetFunction'', ''lambda:InvokeFunction''], resource = ''*''\<rparr>,
       \<lparr>actions = [''s3:ListAllMyBuckets''], resource = ''arn:aws:s3:::*''\<rparr>]"
  have h2: "?send c = Inr (Some \<lparr>Arn = Some ''arn:aws:iam::123456789012:user/alice''\<rparr>)" for c
    by simp
  have h3: "Arn \<lparr>Arn = Some ''arn:aws:iam::123456789012:user/alice''\<rparr>
              = Some ''arn:aws:iam::123456789012:user/alice''"
    by simp
  have h5: "\<forall>per \<in> set ?pers. \<exists>rs.
      ?sim (rule_options ''arn:aws:iam::123456789012:user/alice'' ''eu-central-1'' per) = Inr rs"
    by simp
  from simulatePermissions_encounter_order [where send = ?send and simulateRule = ?sim
      and requiredPermissions = ?pers and supplied = True,
      OF getStsClient_first h2 h3 normalizePrincipal_alice h5, THEN conjunct1]
  show ?thesis
    by (simp add: rule_options_def returned_def)
qed

text \<open>
  C4. No partial-failure tolerance. If \<open>simulateRule\<close> throws for a permission after
  returning for all permissions before it, \<open>simulatePermissions\<close> fails with that error: no
  result list is returned, and the collaborator has been called for the permissions up to
  and including the failing one and for none after it. (Callbacks for the results of the
  earlier permissions have already run.)
\<close>

theorem simulatePermissions_no_partial_result:
  assumes "fst (getStsClient sha256 chk e region st) = Inr c"
    and "send c = Inr (Some ci)" and "Arn ci = Some a"
    and "normalizePrincipal a = Inr arn"
    and "\<forall>q \<in> set before. \<exists>rs. simulateRule (rule_options arn region q) = Inr rs"
    and "simulateRule (rule_options arn region per) = Inl err"
  shows "simulatePermissions sha256 chk send simulateRule (before @ per # later) e st region supplied
    = (Inl err,
       concat (map (\<lambda>q. SimulateRule (rule_options arn region q)
                      # (if supplied
                         then map OnSimulation (returned (simulateRule (rule_options arn region q)))
                         else [])) before)
         @ [SimulateRule (rule_options arn region per)])
    \<and> simulated (snd (simulatePermissions sha256 chk send simulateRule (before @ per # later) e st
                        region supplied))
       = map (rule_options arn region) (before @ [per])"
proof -
  have eq: "simulatePermissions sha256 chk send simulateRule (before @ per # later) e st region supplied
    = (Inl err,
       concat (map (\<lambda>q. SimulateRule (rule_options arn region q)
                      # (if supplied
                         then map OnSimulation (returned (simulateRule (rule_options arn region q)))
                         else [])) before)
         @ [SimulateRule (rule_options arn region per)])"
    unfolding simulatePermissions_loop [where send = send, OF assms(1-4)]
      simulate_each_throw [OF assms(5,6)]
    by simp
  show ?thesis
    unfolding eq by (simp only: snd_conv simulated_append simulated_rounds) simp
qed

theorem simulatePermissions_no_partial_result_witness:
  "simulatePermissions id Map.empty
      (\<lambda>c. Inr (Some \<lparr>Arn = Some ''arn:aws:iam::123456789012:user/alice''\<rparr>))
      (\<lambda>opts. if rule_resource opts = ''arn:aws:s3:::*'' then Inl (Error ''AccessDenied'')
              else Inr (map (\<lambda>a. \<lparr>name = a, decision = ''allowed''\<rparr>) (rule_actionNames opts)))
      [\<lparr>actions = [''lambda:GetFunction''], resource = ''*''\<rparr>,
       \<lparr>actions = [''s3:ListAllMyBuckets''], resource = ''arn:aws:s3:::*''\<rparr>,
       \<lparr>actions = [''logs:CreateLogGroup''], resource = ''arn:aws:logs:*''\<rparr>]
      \<lparr>env = Map.empty, isInsideLambda = True\<rparr> initial_state ''eu-central-1'' True
   = (Inl (Error ''AccessDenied''),
      [SimulateRule \<lparr>rule_actionNames = [''lambda:GetFunction''],
                     rule_arn = ''arn:aws:iam::123456789012:user/alice'',
                     rule_region = ''eu-central-1'', rule_resource = ''*'', rule_retries = 2\<rparr>,
       OnSimulation \<lparr>name = ''lambda:GetFunction'', decision = ''allowed''\<rparr>,
       SimulateRule \<lparr>rule_actionNames = [''s3:ListAllMyBuckets''],
                     rule_arn = ''arn:aws:iam::123456789012:user/alice'',
                     rule_region = ''eu-central-1'', rule_resource = ''arn:aws:s3:::*'',
                     rule_retries = 2\<rparr>])"
proof -
  let ?send = "\<lambda>c :: client. Inr (Some \<lparr>Arn = Some ''arn:aws:iam::123456789012:user/alice''\<rparr>)
                   :: error + caller_identity option"
  let ?sim = "\<lambda>opts. if rule_resource opts = ''arn:aws:s3:::*'' then Inl (Error ''AccessDenied'')
              else Inr (map (\<lambda>a. \<lparr>name = a, decision = ''allowed''\<rparr>) (rule_actionNames opts))
                   :: error + SimulationResult list"
  let ?before = "[\<lparr>actions = [''lambda:GetFunction''], resource = ''*''\<rparr>]"
  let ?per = "\<lparr>actions = [''s3:ListAllMyBuckets''], resource = ''arn:aws:s3:::*''\<rparr>"
  let ?later = "[\<lparr>actions = [''logs:CreateLogGroup''], resource = ''arn:aws:logs:*''\<rparr>]"
  have h2: "?send c = Inr (Some \<lparr>Arn = Some ''arn:aws:iam::123456789012:user/alice''\<rparr>)" for c
    by simp
  have h3: "Arn \<lparr>Arn = Some ''arn:aws:iam::123456789012:user/alice''\<rparr>
              = Some ''arn:aws:iam::123456789012:user/alice''"
    by simp
  have h5: "\<forall>q \<in> set ?before. \<exists>rs.
      ?sim (rule_options ''arn:aws:iam::123456789012:user/alice'' ''eu-central-1'' q) = Inr rs"
    by (simp add: rule_options_def)
  have h6: "?sim (rule_options ''arn:aws:iam::123456789012:user/alice'' ''eu-central-1'' ?per)
              = Inl (Error ''AccessDenied'')"
    by (simp add: rule_options_def)
  from simulatePermissions_no_partial_result [where send = ?send and simulateRule = ?sim
      and before = ?before and per = ?per and later = ?later and supplied = True,
      OF getStsClient_first h2 h3 normalizePrincipal_alice h5 h6, THEN conjunct1]
  show ?thesis
    by (simp add: rule_options_def returned_def)
qed

section \<open>The unanchored matcher\<close>

lemma simulate_each_rule_arn:
  "list_all (\<lambda>opts. rule_arn opts = arn) (simulated trace)
     \<Longrightarrow> list_all (\<lambda>opts. rule_arn opts = arn)
           (simulated (snd (simulate_each simulateRule supplied arn region pers (acc, trace))))"
proof (induction pers arbitrary: acc trace)
  case Nil
  then show ?case by simp
next
  case (Cons per pers)
  show ?case
  proof (cases "simulateRule (rule_options arn region per)")
    case (Inl err)
    with Cons.prems show ?thesis
      by (simp add: rule_options_def)
  next
    case (Inr rs)
    from Cons.prems
    have "list_all (\<lambda>opts. rule_arn opts = arn)
            (simulated ((trace @ [SimulateRule (rule_options arn region per)])
                          @ (if supplied then map OnSimulation rs else [])))"
      by (simp add: rule_options_def)
    from Cons.IH [OF this] Inr show ?thesis
      by (simp add: push_results_eq)
  qed
qed

lemma simulatePermissions_rule_arn:
  assumes "fst (getStsClient sha256 chk e region st) = Inr c"
    and "send c = Inr (Some ci)" and "Arn ci = Some a"
    and "normalizePrincipal a = Inr arn"
  shows "list_all (\<lambda>opts. rule_arn opts = arn)
           (simulated (snd (simulatePermissions sha256 chk send simulateRule requiredPermissions
                              e st region supplied)))"
proof -
  have "list_all (\<lambda>opts. rule_arn opts = arn)
          (simulated (snd (simulate_each simulateRule supplied arn region requiredPermissions ([], []))))"
    by (rule simulate_each_rule_arn) simp
  moreover have "snd (simulatePermissions sha256 chk send simulateRule requiredPermissions
                              e st region supplied)
      = snd (simulate_each simulateRule supplied arn region requiredPermissions ([], []))"
    unfolding simulatePermissions_loop [where send = send, OF assms]
    by (simp split: prod.splits sum.splits)
  ultimately show ?thesis by simp
qed

lemma regexp_match_behind_prefix:
  "regexp_match arn_re ''zz arn:aws:ec2::123456789012:instance/i-abc''
     = Some [''arn:aws:ec2::123456789012:instance/i-abc'', ''ec2'', ''123456789012'',
             ''instance'', ''/i-abc'']
   \<and> regexp_match arn_re ''zz arn:aws:ec2::1:x arn:aws:iam::123456789012:user/alice''
     = Some [''arn:aws:ec2::1:x arn:aws:iam::123456789012:user/alice'', ''ec2'', ''1'',
             ''x arn:aws:iam::123456789012:user'', ''/alice'']"
proof -
  have w: "\<forall>c \<in> set ''ec2''. is_word c"
    by (simp add: is_word_def is_digit_def)
  have d: "\<forall>c \<in> set ''123456789012''. is_digit c" "\<forall>c \<in> set ''1''. is_digit c"
    by (simp_all add: is_digit_def)
  have "regexp_match arn_re
          (''arn:aws:'' @ ''ec2'' @ ''::'' @ ''123456789012'' @ '':'' @ ''instance'' @ ''/i-abc'')
      = Some [''arn:aws:'' @ ''ec2'' @ ''::'' @ ''123456789012'' @ '':'' @ ''instance''
                @ takeWhile (in_class Dot) ''/i-abc'',
              ''ec2'', ''123456789012'', ''instance'', takeWhile (in_class Dot) ''/i-abc'']"
    by (rule regexp_match_arn [OF _ w _ d(1)]) simp_all
  then have 1: "regexp_match arn_re ''arn:aws:ec2::123456789012:instance/i-abc''
      = Some [''arn:aws:ec2::123456789012:instance/i-abc'', ''ec2'', ''123456789012'',
              ''instance'', ''/i-abc'']"
    by (simp add: is_line_terminator_def)
  have "\<forall>i < length ''zz ''.
      match_here arn_re (drop i ''zz '' @ ''arn:aws:ec2::123456789012:instance/i-abc'') = None"
    by (rule no_match_before) simp
  from regexp_match_skip [OF this] 1
  have a: "regexp_match arn_re ''zz arn:aws:ec2::123456789012:instance/i-abc''
      = Some [''arn:aws:ec2::123456789012:instance/i-abc'', ''ec2'', ''123456789012'',
              ''instance'', ''/i-abc'']"
    by simp
  have "regexp_match arn_re
          (''arn:aws:'' @ ''ec2'' @ ''::'' @ ''1'' @ '':'' @ ''x arn:aws:iam::123456789012:user''
             @ ''/alice'')
      = Some [''arn:aws:'' @ ''ec2'' @ ''::'' @ ''1'' @ '':'' @ ''x arn:aws:iam::123456789012:user''
                @ takeWhile (in_class Dot) ''/alice'',
              ''ec2'', ''1'', ''x arn:aws:iam::123456789012:user'',
              takeWhile (in_class Dot) ''/alice'']"
    by (rule regexp_match_arn [OF _ w _ d(2)]) simp_all
  then have 2: "regexp_match arn_re ''arn:aws:ec2::1:x arn:aws:iam::123456789012:user/alice''
      = Some [''arn:aws:ec2::1:x arn:aws:iam::123456789012:user/alice'', ''ec2'', ''1'',
              ''x arn:aws:iam::123456789012:user'', ''/alice'']"
    by (simp add: is_line_terminator_def)
  have "\<forall>i < length ''zz ''.
      match_here arn_re (drop i ''zz '' @ ''arn:aws:ec2::1:x arn:aws:iam::123456789012:user/alice'')
        = None"
    by (rule no_match_before) simp
  from regexp_match_skip [OF this] 2
  have b: "regexp_match arn_re ''zz arn:aws:ec2::1:x arn:aws:iam::123456789012:user/alice''
      = Some [''arn:aws:ec2::1:x arn:aws:iam::123456789012:user/alice'', ''ec2'', ''1'',
              ''x arn:aws:iam::123456789012:user'', ''/alice'']"
    by simp
  from a b show ?thesis by blast
qed

text \<open>
  C10 as stated fails: an input in which the pattern matches only as a proper substring is
  still rejected when the leftmost match is not of a supported service and resource type.
  \<open>zz arn:aws:ec2::123456789012:instance/i-abc\<close> is matched from index 3 and rejected, and so is
  an IAM-user ARN behind a prefix that itself holds a match of the pattern.
\<close>

theorem arn_matcher_proper_substring_counterexample:
  "regexp_match arn_re ''zz arn:aws:ec2::123456789012:instance/i-abc''
     = Some [''arn:aws:ec2::123456789012:instance/i-abc'', ''ec2'', ''123456789012'',
             ''instance'', ''/i-abc'']
   \<and> normalizePrincipal ''zz arn:aws:ec2::123456789012:instance/i-abc''
     = Inl (Error ''Unsupported AWS ARN detected'')
   \<and> regexp_match arn_re ''zz arn:aws:ec2::1:x arn:aws:iam::123456789012:user/alice''
     = Some [''arn:aws:ec2::1:x arn:aws:iam::123456789012:user/alice'', ''ec2'', ''1'',
             ''x arn:aws:iam::123456789012:user'', ''/alice'']
   \<and> normalizePrincipal ''zz arn:aws:ec2::1:x arn:aws:iam::123456789012:user/alice''
     = Inl (Error ''Unsupported AWS ARN detected'')"
  using regexp_match_behind_prefix
  by (simp add: normalizePrincipal_def)

text \<open>
  C10, amended. The ARN matcher is unanchored. If the pattern matches at some position of the
  input, \<open>match\<close> returns a match whatever text precedes it, so the input is not rejected for
  lack of a match; it is accepted or rejected by the leftmost match. Whenever the leftmost
  match has service \<open>iam\<close> and resource type \<open>user\<close>, the principal ARN is the entire input
  string. In particular an IAM-user ARN after a prefix in which the pattern does not match
  earlier, and before any suffix, is matched from its own start, and the whole string, prefix
  and suffix included, becomes the principal ARN. That whole string is the \<open>arn\<close> of every
  \<open>simulateRule\<close> call \<open>simulatePermissions\<close> makes. Whenever the leftmost match has a service
  and resource type other than (iam, user) and (sts, assumed-role), the input is rejected,
  surrounding text or not.
\<close>

theorem arn_matcher_unanchored:
  "(match_here arn_re u \<noteq> None \<longrightarrow> regexp_match arn_re (pre @ u) \<noteq> None)
   \<and> (regexp_match arn_re s = Some gs \<and> gs ! 1 = ''iam'' \<and> gs ! 3 = ''user'' \<longrightarrow>
        normalizePrincipal s = Inr s)
   \<and> (acct \<noteq> [] \<and> (\<forall>c \<in> set acct. is_digit c)
       \<and> (\<forall>i < length pre.
             match_here arn_re (drop i pre @ ''arn:aws:iam::'' @ acct @ '':user/'' @ rest) = None)
       \<longrightarrow>
        regexp_match arn_re (pre @ ''arn:aws:iam::'' @ acct @ '':user/'' @ rest)
          = Some [''arn:aws:iam::'' @ acct @ '':user/'' @ takeWhile (in_class Dot) rest,
                  ''iam'', acct, ''user'', ''/'' @ takeWhile (in_class Dot) rest]
        \<and> normalizePrincipal (pre @ ''arn:aws:iam::'' @ acct @ '':user/'' @ rest)
          = Inr (pre @ ''arn:aws:iam::'' @ acct @ '':user/'' @ rest))
   \<and> (fst (getStsClient sha256 chk e region st) = Inr c \<and> send c = Inr (Some ci)
       \<and> Arn ci = Some s \<and> regexp_match arn_re s = Some gs \<and> gs ! 1 = ''iam''
       \<and> gs ! 3 = ''user'' \<longrightarrow>
        list_all (\<lambda>opts. rule_arn opts = s)
          (simulated (snd (simulatePermissions sha256 chk send simulateRule requiredPermissions
                             e st region supplied))))
   \<and> (regexp_match arn_re s = Some gs \<and> (gs ! 1, gs ! 3) \<noteq> (''iam'', ''user'')
       \<and> (gs ! 1, gs ! 3) \<noteq> (''sts'', ''assumed-role'') \<longrightarrow>
        normalizePrincipal s = Inl (Error ''Unsupported AWS ARN detected''))"
proof (intro conjI impI)
  assume "regexp_match arn_re s = Some gs \<and> (gs ! 1, gs ! 3) \<noteq> (''iam'', ''user'')
       \<and> (gs ! 1, gs ! 3) \<noteq> (''sts'', ''assumed-role'')"
  then show "normalizePrincipal s = Inl (Error ''Unsupported AWS ARN detected'')"
    by (auto simp: normalizePrincipal_def)
next
  assume a: "fst (getStsClient sha256 chk e region st) = Inr c \<and> send c = Inr (Some ci)
       \<and> Arn ci = Some s \<and> regexp_match arn_re s = Some gs \<and> gs ! 1 = ''iam''
       \<and> gs ! 3 = ''user''"
  then have "normalizePrincipal s = Inr s"
    by (simp add: normalizePrincipal_def)
  with a show "list_all (\<lambda>opts. rule_arn opts = s)
          (simulated (snd (simulatePermissions sha256 chk send simulateRule requiredPermissions
                             e st region supplied)))"
    by (intro simulatePermissions_rule_arn [where send = send and c = c and ci = ci and a = s]) simp_all
next
  assume "match_here arn_re u \<noteq> None"
  then show "regexp_match arn_re (pre @ u) \<noteq> None"
    by (rule regexp_match_unanchored)
next
  assume "regexp_match arn_re s = Some gs \<and> gs ! 1 = ''iam'' \<and> gs ! 3 = ''user''"
  then show "normalizePrincipal s = Inr s"
    by (simp add: normalizePrincipal_def)
next
  assume a: "acct \<noteq> [] \<and> (\<forall>c \<in> set acct. is_digit c)
       \<and> (\<forall>i < length pre.
             match_here arn_re (drop i pre @ ''arn:aws:iam::'' @ acct @ '':user/'' @ rest) = None)"
  let ?u = "''arn:aws:iam::'' @ acct @ '':user/'' @ rest"
  from a have "regexp_match arn_re (''arn:aws:'' @ ''iam'' @ ''::'' @ acct @ '':'' @ ''user'' @ (''/'' @ rest))
         = Some [''arn:aws:'' @ ''iam'' @ ''::'' @ acct @ '':'' @ ''user''
                   @ takeWhile (in_class Dot) (''/'' @ rest),
                 ''iam'', acct, ''user'', takeWhile (in_class Dot) (''/'' @ rest)]"
    by (intro regexp_match_arn) simp_all
  then have "regexp_match arn_re ?u
         = Some [''arn:aws:iam::'' @ acct @ '':user/'' @ takeWhile (in_class Dot) rest,
                  ''iam'', acct, ''user'', ''/'' @ takeWhile (in_class Dot) rest]"
    by (simp add: is_line_terminator_def)
  moreover from a have "regexp_match arn_re (pre @ ?u) = regexp_match arn_re ?u"
    by (intro regexp_match_skip) simp
  ultimately show m: "regexp_match arn_re (pre @ ?u)
         = Some [''arn:aws:iam::'' @ acct @ '':user/'' @ takeWhile (in_class Dot) rest,
                  ''iam'', acct, ''user'', ''/'' @ takeWhile (in_class Dot) rest]"
    by simp
  then show "normalizePrincipal (pre @ ?u) = Inr (pre @ ?u)"
    by (simp add: normalizePrincipal_def)
qed

theorem arn_matcher_unanchored_witness:
  "regexp_match arn_re ''id: arn:aws:iam::123456789012:user/alice (cli)''
     = Some [''arn:aws:iam::123456789012:user/alice (cli)'', ''iam'', ''123456789012'', ''user'',
             ''/alice (cli)'']
   \<and> normalizePrincipal ''id: arn:aws:iam::123456789012:user/alice (cli)''
     = Inr ''id: arn:aws:iam::123456789012:user/alice (cli)''
   \<and> list_all (\<lambda>opts. rule_arn opts = ''id: arn:aws:iam::123456789012:user/alice (cli)'')
         (simulated (snd (simulatePermissions id Map.empty
            (\<lambda>c. Inr (Some \<lparr>Arn = Some ''id: arn:aws:iam::123456789012:user/alice (cli)''\<rparr>))
            (\<lambda>opts. Inr (map (\<lambda>a. \<lparr>name = a, decision = ''allowed''\<rparr>) (rule_actionNames opts)))
            [\<lparr>actions = [''lambda:GetFunction''], resource = ''*''\<rparr>]
            \<lparr>env = Map.empty, isInsideLambda = True\<rparr> initial_state ''eu-central-1'' True)))
   \<and> simulated (snd (simulatePermissions id Map.empty
            (\<lambda>c. Inr (Some \<lparr>Arn = Some ''id: arn:aws:iam::123456789012:user/alice (cli)''\<rparr>))
            (\<lambda>opts. Inr (map (\<lambda>a. \<lparr>name = a, decision = ''allowed''\<rparr>) (rule_actionNames opts)))
            [\<lparr>actions = [''lambda:GetFunction''], resource = ''*''\<rparr>]
            \<lparr>env = Map.empty, isInsideLambda = True\<rparr> initial_state ''eu-central-1'' True))
       = [\<lparr>rule_actionNames = [''lambda:GetFunction''],
           rule_arn = ''id: arn:aws:iam::123456789012:user/alice (cli)'',
           rule_region = ''eu-central-1'', rule_resource = ''*'', rule_retries = 2\<rparr>]
   \<and> regexp_match arn_re ''id: arn:aws:iam::123456789012:user/alice (cli)'' \<noteq> None
   \<and> normalizePrincipal ''zz arn:aws:ec2::123456789012:instance/i-abc''
       = Inl (Error ''Unsupported AWS ARN detected'')"
proof -
  let ?s = "''id: arn:aws:iam::123456789012:user/alice (cli)''"
  let ?send = "\<lambda>c :: client. Inr (Some \<lparr>Arn = Some ?s\<rparr>) :: error + caller_identity option"
  let ?sim = "\<lambda>opts. Inr (map (\<lambda>a. \<lparr>name = a, decision = ''allowed''\<rparr>) (rule_actionNames opts))
                   :: error + SimulationResult list"
  let ?pers = "[\<lparr>actions = [''lambda:GetFunction''], resource = ''*''\<rparr>]"
  let ?e = "\<lparr>env = Map.empty, isInsideLambda = True\<rparr>"
  have d: "''123456789012'' \<noteq> [] \<and> (\<forall>c \<in> set ''123456789012''. is_digit c)"
    by (simp add: is_digit_def)
  have n: "\<forall>i < length ''id: ''.
      match_here arn_re (drop i ''id: '' @ ''arn:aws:iam::'' @ ''123456789012'' @ '':user/'' @ ''alice (cli)'') = None"
    by (rule no_match_before) simp
  have t: "takeWhile (in_class Dot) ''alice (cli)'' = ''alice (cli)''"
    by (simp add: is_line_terminator_def)
  from arn_matcher_unanchored [THEN conjunct2, THEN conjunct2, THEN conjunct1, rule_format,
      OF conjI [OF conjunct1 [OF d] conjI [OF conjunct2 [OF d] n]]]
  have m: "regexp_match arn_re ?s
      = Some [''arn:aws:iam::123456789012:user/alice (cli)'', ''iam'', ''123456789012'', ''user'',
              ''/alice (cli)'']"
    and np: "normalizePrincipal ?s = Inr ?s"
    unfolding t by simp_all
  have h2: "?send c = Inr (Some \<lparr>Arn = Some ?s\<rparr>)" for c
    by simp
  have h3: "Arn \<lparr>Arn = Some ?s\<rparr> = Some ?s"
    by simp
  have g: "[''arn:aws:iam::123456789012:user/alice (cli)'', ''iam'', ''123456789012'', ''user'',
              ''/alice (cli)''] ! 1 = ''iam''"
    "[''arn:aws:iam::123456789012:user/alice (cli)'', ''iam'', ''123456789012'', ''user'',
              ''/alice (cli)''] ! 3 = ''user''"
    by simp_all
  have l: "list_all (\<lambda>opts. rule_arn opts = ?s)
         (simulated (snd (simulatePermissions id Map.empty ?send ?sim ?pers ?e initial_state
                            ''eu-central-1'' True)))"
    by (rule arn_matcher_unanchored [THEN conjunct2, THEN conjunct2, THEN conjunct2,
          THEN conjunct1, rule_format, where send = ?send,
          OF conjI [OF getStsClient_first conjI [OF h2 conjI [OF h3 conjI [OF m conjI [OF g]]]]]])
  have h5: "\<forall>per \<in> set ?pers. \<exists>rs. ?sim (rule_options ?s ''eu-central-1'' per) = Inr rs"
    by simp
  have tr: "simulated (snd (simulatePermissions id Map.empty ?send ?sim ?pers ?e initial_state
                            ''eu-central-1'' True))
       = [\<lparr>rule_actionNames = [''lambda:GetFunction''], rule_arn = ?s,
           rule_region = ''eu-central-1'', rule_resource = ''*'', rule_retries = 2\<rparr>]"
    unfolding simulatePermissions_loop [where send = ?send, OF getStsClient_first h2 h3 np]
      simulate_each_all_return [where simulateRule = ?sim, OF h5]
    by (simp add: rule_options_def)
  have "match_here arn_re (''arn:aws:'' @ ''iam'' @ ''::'' @ ''123456789012'' @ '':'' @ ''user''
                             @ ''/alice (cli)'') \<noteq> None"
    using match_here_arn [of "''iam''" "''123456789012''" "''user''" "''/alice (cli)''"] d
    by simp
  then have "match_here arn_re ''arn:aws:iam::123456789012:user/alice (cli)'' \<noteq> None"
    by simp
  from arn_matcher_unanchored [THEN conjunct1, rule_format, OF this, of "''id: ''"]
  have u: "regexp_match arn_re ?s \<noteq> None"
    by simp
  have r: "normalizePrincipal ''zz arn:aws:ec2::123456789012:instance/i-abc''
       = Inl (Error ''Unsupported AWS ARN detected'')"
    by (rule arn_matcher_unanchored [THEN conjunct2, THEN conjunct2, THEN conjunct2,
          THEN conjunct2, rule_format,
          OF conjI [OF regexp_match_behind_prefix [THEN conjunct1]]])
       simp
  from m np l tr u r show ?thesis by blast
qed

end
